theory Spec2Isabelle
  imports Main "HOL-Library.Word"
begin

section \<open>The sparse set of aZero: a shallow embedding\<close>

text \<open>
  The repository holds two class templates with the same four data members:
  \<^verbatim>\<open>aZero::DS::SparseSet\<close> in \<^verbatim>\<open>include/SparseSet.hpp\<close> (Insert, Erase, Reserve) and
  \<^verbatim>\<open>aZero::SparseSet\<close> in \<^verbatim>\<open>src/include/SparseSet.h\<close> (Add, Remove, ExtendTo, and
  hand-written copy and move operations).

  \<^item> \<^verbatim>\<open>IDType\<close> is an unsigned integer of some width: a \<open>'w word\<close>. Increment and
    decrement of \<^verbatim>\<open>m_CurrentLast\<close> wrap around, as they do in C++.
    A comparison of an \<^verbatim>\<open>IDType\<close> with a \<^verbatim>\<open>size_t\<close> compares the values (\<open>unat\<close>).
    The \<^verbatim>\<open>.h\<close> variant also admits signed identifier types; they are not modelled.
  \<^item> A \<^verbatim>\<open>std::vector\<close> is a list; \<^verbatim>\<open>size_t\<close> is \<open>nat\<close>.
    Allocation failure and the capacity of a vector are not modelled.
  \<^item> \<^verbatim>\<open>std::vector::at\<close> throws \<^verbatim>\<open>std::out_of_range\<close>: every access returns
    \<open>error + 'a\<close>. A member function that can throw after it has written returns the
    outcome together with the object as the exception leaves it.
  \<^item> Moving an element is modelled as copying it: the slot that was moved from is past
    the new count and keeps its value (exact for the trivially copyable element types
    that the \<^verbatim>\<open>.hpp\<close> variant requires).
  \<^item> The functions of the \<^verbatim>\<open>.h\<close> variant whose names clash with the \<^verbatim>\<open>.hpp\<close> ones
    carry the suffix \<open>_h\<close>.
\<close>

text \<open>
  \<open>OutOfRange\<close> is \<^verbatim>\<open>std::out_of_range\<close>. \<open>UndefinedBehaviour\<close> is the outcome of a call
  whose behaviour C++ leaves undefined: such a call has no result and leaves no object
  that anything can be said about.
\<close>

datatype error = OutOfRange | UndefinedBehaviour

text \<open>The data members; \<open>'i\<close> is \<^verbatim>\<open>IDType\<close>, instantiated below with \<open>'w word\<close>.\<close>

record ('i, 'e) sparse_set =
  m_ID_To_Element :: "'i list"
  m_Element_To_ID :: "'i list"
  m_Elements :: "'e list"
  m_CurrentLast :: "'i"

type_synonym ('w, 'e) sset = "('w word, 'e) sparse_set"

type_synonym ('w, 'e, 'r) call = "(error + 'r) \<times> ('w, 'e) sset"

subsection \<open>std::vector\<close>

text \<open>\<^verbatim>\<open>v.at(i)\<close> read.\<close>

definition vec_at :: "'a list \<Rightarrow> nat \<Rightarrow> error + 'a" where
  "vec_at v i = (if i < length v then Inr (v ! i) else Inl OutOfRange)"

text \<open>\<^verbatim>\<open>v.at(i) = x\<close>.\<close>

definition vec_assign :: "'a list \<Rightarrow> nat \<Rightarrow> 'a \<Rightarrow> error + 'a list" where
  "vec_assign v i x = (if i < length v then Inr (v[i := x]) else Inl OutOfRange)"

text \<open>\<^verbatim>\<open>v.resize(n, x)\<close>; \<^verbatim>\<open>v.resize(n)\<close> is the same with a value-initialised \<open>x\<close>.\<close>

definition vec_resize :: "'a list \<Rightarrow> nat \<Rightarrow> 'a \<Rightarrow> 'a list" where
  "vec_resize v n x = take n v @ replicate (n - length v) x"

subsection \<open>Statements on the members\<close>

text \<open>\<^verbatim>\<open>m_Elements.at(i) = x;\<close>\<close>

definition put_Elements :: "nat \<Rightarrow> 'e \<Rightarrow> ('w, 'e) sset \<Rightarrow> ('w, 'e, unit) call" where
  "put_Elements i x s =
     (case vec_assign (m_Elements s) i x of
        Inl e \<Rightarrow> (Inl e, s)
      | Inr v \<Rightarrow> (Inr (), s\<lparr>m_Elements := v\<rparr>))"

text \<open>\<^verbatim>\<open>m_Element_To_ID.at(i) = x;\<close>\<close>

definition put_Element_To_ID :: "nat \<Rightarrow> 'w word \<Rightarrow> ('w, 'e) sset \<Rightarrow> ('w, 'e, unit) call" where
  "put_Element_To_ID i x s =
     (case vec_assign (m_Element_To_ID s) i x of
        Inl e \<Rightarrow> (Inl e, s)
      | Inr v \<Rightarrow> (Inr (), s\<lparr>m_Element_To_ID := v\<rparr>))"

text \<open>\<^verbatim>\<open>m_ID_To_Element.at(i) = x;\<close>\<close>

definition put_ID_To_Element :: "nat \<Rightarrow> 'w word \<Rightarrow> ('w, 'e) sset \<Rightarrow> ('w, 'e, unit) call" where
  "put_ID_To_Element i x s =
     (case vec_assign (m_ID_To_Element s) i x of
        Inl e \<Rightarrow> (Inl e, s)
      | Inr v \<Rightarrow> (Inr (), s\<lparr>m_ID_To_Element := v\<rparr>))"

text \<open>Sequencing: the rest runs on the object the first statement leaves, unless it threw.\<close>

definition and_then ::
  "('w, 'e, unit) call \<Rightarrow> (('w, 'e) sset \<Rightarrow> ('w, 'e, 'r) call) \<Rightarrow> ('w, 'e, 'r) call" where
  "and_then c f = (case c of (Inl e, s) \<Rightarrow> (Inl e, s) | (Inr u, s) \<Rightarrow> f s)"

subsection \<open>include/SparseSet.hpp\<close>

text \<open>\<^verbatim>\<open>std::numeric_limits<IDType>::max()\<close>\<close>

definition InvalidIndex :: "'w::len word" where
  "InvalidIndex = - 1"

definition SparseSet_default :: "('w::len, 'e) sset" where
  "SparseSet_default =
     \<lparr>m_ID_To_Element = [], m_Element_To_ID = [], m_Elements = [], m_CurrentLast = 0\<rparr>"

definition SparseSet :: "'w::len word \<Rightarrow> ('w, 'e) sset" where
  "SparseSet numElements =
     \<lparr>m_ID_To_Element = replicate (unat numElements) InvalidIndex,
      m_Element_To_ID = [], m_Elements = [], m_CurrentLast = 0\<rparr>"

text \<open>The class declares no copy constructor: the implicit one copies every member.\<close>

definition SparseSet_copy :: "('w::len, 'e) sset \<Rightarrow> ('w, 'e) sset" where
  "SparseSet_copy other = other"

definition Exists :: "('w::len, 'e) sset \<Rightarrow> 'w word \<Rightarrow> error + bool" where
  "Exists s ident =
     (if unat ident \<ge> length (m_ID_To_Element s) then Inr False
      else (case vec_at (m_ID_To_Element s) (unat ident) of
              Inl e \<Rightarrow> Inl e
            | Inr elementIndex \<Rightarrow> Inr (elementIndex \<noteq> InvalidIndex)))"

text \<open>\<^verbatim>\<open>void Insert(IDType id, const ElementType& element)\<close>\<close>

definition Insert :: "('w::len, 'e) sset \<Rightarrow> 'w word \<Rightarrow> 'e \<Rightarrow> ('w, 'e, unit) call" where
  "Insert s ident element =
     (case Exists s ident of
        Inl e \<Rightarrow> (Inl e, s)
      | Inr ex \<Rightarrow>
          if \<not> ex then
            and_then
              (if unat (m_CurrentLast s) < length (m_Elements s) then
                 and_then (put_Elements (unat (m_CurrentLast s)) element s)
                   (put_Element_To_ID (unat (m_CurrentLast s)) ident)
               else
                 (Inr (), s\<lparr>m_Elements := m_Elements s @ [element],
                             m_Element_To_ID := m_Element_To_ID s @ [ident]\<rparr>))
              (\<lambda>s1. and_then (put_ID_To_Element (unat ident) (m_CurrentLast s1) s1)
                 (\<lambda>s2. (Inr (), s2\<lparr>m_CurrentLast := m_CurrentLast s2 + 1\<rparr>)))
          else (Inr (), s))"

text \<open>\<^verbatim>\<open>bool Insert(IDType id, ElementType&& element)\<close>\<close>

definition Insert_move :: "('w::len, 'e) sset \<Rightarrow> 'w word \<Rightarrow> 'e \<Rightarrow> ('w, 'e, bool) call" where
  "Insert_move s ident element =
     (case Exists s ident of
        Inl e \<Rightarrow> (Inl e, s)
      | Inr ex \<Rightarrow>
          if \<not> ex then
            and_then
              (if unat (m_CurrentLast s) < length (m_Elements s) then
                 and_then (put_Elements (unat (m_CurrentLast s)) element s)
                   (put_Element_To_ID (unat (m_CurrentLast s)) ident)
               else
                 (Inr (), s\<lparr>m_Elements := m_Elements s @ [element],
                             m_Element_To_ID := m_Element_To_ID s @ [ident]\<rparr>))
              (\<lambda>s1. and_then (put_ID_To_Element (unat ident) (m_CurrentLast s1) s1)
                 (\<lambda>s2. (Inr True, s2\<lparr>m_CurrentLast := m_CurrentLast s2 + 1\<rparr>)))
          else (Inr False, s))"

text \<open>\<^verbatim>\<open>bool Erase(IDType id)\<close>\<close>

definition Erase :: "('w::len, 'e) sset \<Rightarrow> 'w word \<Rightarrow> ('w, 'e, bool) call" where
  "Erase s ident =
     (case Exists s ident of
        Inl e \<Rightarrow> (Inl e, s)
      | Inr ex \<Rightarrow>
          if ex then
            (let LastIndex = m_CurrentLast s - 1 in
             case vec_at (m_ID_To_Element s) (unat ident) of
               Inl e \<Rightarrow> (Inl e, s)
             | Inr RemovedElementIndex \<Rightarrow>
                 and_then
                   (if RemovedElementIndex \<noteq> LastIndex then
                      (case vec_at (m_Elements s) (unat LastIndex) of
                         Inl e \<Rightarrow> (Inl e, s)
                       | Inr moved \<Rightarrow>
                           and_then (put_Elements (unat RemovedElementIndex) moved s)
                             (\<lambda>s1. case vec_at (m_Element_To_ID s1) (unat LastIndex) of
                                Inl e \<Rightarrow> (Inl e, s1)
                              | Inr LastElementID \<Rightarrow>
                                  and_then
                                    (put_ID_To_Element (unat LastElementID) RemovedElementIndex s1)
                                    (put_Element_To_ID (unat RemovedElementIndex) LastElementID)))
                    else (Inr (), s))
                   (\<lambda>s3. and_then (put_ID_To_Element (unat ident) InvalidIndex s3)
                      (\<lambda>s4. (Inr True, s4\<lparr>m_CurrentLast := m_CurrentLast s4 - 1\<rparr>))))
          else (Inr False, s))"

text \<open>\<^verbatim>\<open>Get\<close>, both overloads: the reference is modelled by the element it refers to.\<close>

definition Get :: "('w::len, 'e) sset \<Rightarrow> 'w word \<Rightarrow> error + 'e" where
  "Get s ident =
     (case vec_at (m_ID_To_Element s) (unat ident) of
        Inl e \<Rightarrow> Inl e
      | Inr elementIndex \<Rightarrow> vec_at (m_Elements s) (unat elementIndex))"

text \<open>\<^verbatim>\<open>GetIfExists\<close>, both overloads.\<close>

definition GetIfExists :: "('w::len, 'e) sset \<Rightarrow> 'w word \<Rightarrow> error + 'e option" where
  "GetIfExists s ident =
     (case Exists s ident of
        Inl e \<Rightarrow> Inl e
      | Inr ex \<Rightarrow>
          if ex then
            (case vec_at (m_ID_To_Element s) (unat ident) of
               Inl e \<Rightarrow> Inl e
             | Inr elementIndex \<Rightarrow>
                 (case vec_at (m_Elements s) (unat elementIndex) of
                    Inl e \<Rightarrow> Inl e
                  | Inr x \<Rightarrow> Inr (Some x)))
          else Inr None)"

definition GetData :: "('w::len, 'e) sset \<Rightarrow> 'e list" where
  "GetData s = m_Elements s"

text \<open>
  \<^verbatim>\<open>ShrinkToFit\<close>: \<open>fresh\<close> is the value-initialised element that \<^verbatim>\<open>resize\<close> would
  append if the count were beyond the length; a value-initialised \<^verbatim>\<open>IDType\<close> is 0.
\<close>

definition ShrinkToFit :: "'e \<Rightarrow> ('w::len, 'e) sset \<Rightarrow> ('w, 'e) sset" where
  "ShrinkToFit fresh s =
     s\<lparr>m_Elements := vec_resize (m_Elements s) (unat (m_CurrentLast s)) fresh,
       m_Element_To_ID := vec_resize (m_Element_To_ID s) (unat (m_CurrentLast s)) 0\<rparr>"

definition Reserve :: "('w::len, 'e) sset \<Rightarrow> 'w word \<Rightarrow> ('w, 'e) sset" where
  "Reserve s numEntries =
     (if unat numEntries > length (m_ID_To_Element s)
      then s\<lparr>m_ID_To_Element := vec_resize (m_ID_To_Element s) (unat numEntries) InvalidIndex\<rparr>
      else s)"

definition NumSupportedElements :: "('w::len, 'e) sset \<Rightarrow> nat" where
  "NumSupportedElements s = length (m_ID_To_Element s)"

definition GetElementIndex :: "('w::len, 'e) sset \<Rightarrow> 'w word \<Rightarrow> error + 'w word" where
  "GetElementIndex s ident = vec_at (m_ID_To_Element s) (unat ident)"

subsection \<open>src/include/SparseSet.h\<close>

definition m_EmptyIndex :: "'w::len word" where
  "m_EmptyIndex = - 1"

text \<open>\<^verbatim>\<open>SparseSet() = default\<close>, with the default member initialiser \<^verbatim>\<open>m_CurrentLast = 0\<close>.\<close>

definition SparseSet_h_default :: "('w::len, 'e) sset" where
  "SparseSet_h_default =
     \<lparr>m_ID_To_Element = [], m_Element_To_ID = [], m_Elements = [], m_CurrentLast = 0\<rparr>"

definition SparseSet_h :: "'w::len word \<Rightarrow> ('w, 'e) sset" where
  "SparseSet_h NumElements =
     SparseSet_h_default\<lparr>m_ID_To_Element := vec_resize [] (unat NumElements) m_EmptyIndex\<rparr>"

text \<open>
  \<^verbatim>\<open>SparseSet(const SparseSet& Other)\<close>: the three vectors are assigned in the body;
  \<^verbatim>\<open>m_CurrentLast\<close> has no initialiser in the constructor and takes its default, 0.
\<close>

definition SparseSet_h_copy :: "('w::len, 'e) sset \<Rightarrow> ('w, 'e) sset" where
  "SparseSet_h_copy Other =
     SparseSet_h_default\<lparr>m_ID_To_Element := m_ID_To_Element Other,
       m_Element_To_ID := m_Element_To_ID Other,
       m_Elements := m_Elements Other\<rparr>"


definition Exists_h :: "('w::len, 'e) sset \<Rightarrow> 'w word \<Rightarrow> error + bool" where
  "Exists_h s ID =
     (if unat ID \<ge> length (m_ID_To_Element s) then Inr False
      else (case vec_at (m_ID_To_Element s) (unat ID) of
              Inl e \<Rightarrow> Inl e
            | Inr elementIndex \<Rightarrow> Inr (elementIndex \<noteq> m_EmptyIndex)))"

text \<open>\<^verbatim>\<open>void Add(IDType ID, const ElementType& Element)\<close>\<close>

definition Add :: "('w::len, 'e) sset \<Rightarrow> 'w word \<Rightarrow> 'e \<Rightarrow> ('w, 'e, unit) call" where
  "Add s ID Element =
     (case Exists_h s ID of
        Inl e \<Rightarrow> (Inl e, s)
      | Inr ex \<Rightarrow>
          if \<not> ex then
            and_then
              (if unat (m_CurrentLast s) < length (m_Elements s) then
                 and_then (put_Elements (unat (m_CurrentLast s)) Element s)
                   (put_Element_To_ID (unat (m_CurrentLast s)) ID)
               else
                 (Inr (), s\<lparr>m_Elements := m_Elements s @ [Element],
                             m_Element_To_ID := m_Element_To_ID s @ [ID]\<rparr>))
              (\<lambda>s1. and_then (put_ID_To_Element (unat ID) (m_CurrentLast s1) s1)
                 (\<lambda>s2. (Inr (), s2\<lparr>m_CurrentLast := m_CurrentLast s2 + 1\<rparr>)))
          else (Inr (), s))"

text \<open>\<^verbatim>\<open>void Add(IDType ID, ElementType&& Element)\<close>\<close>

definition Add_move :: "('w::len, 'e) sset \<Rightarrow> 'w word \<Rightarrow> 'e \<Rightarrow> ('w, 'e, unit) call" where
  "Add_move s ID Element =
     (case Exists_h s ID of
        Inl e \<Rightarrow> (Inl e, s)
      | Inr ex \<Rightarrow>
          if \<not> ex then
            and_then
              (if unat (m_CurrentLast s) < length (m_Elements s) then
                 and_then (put_Elements (unat (m_CurrentLast s)) Element s)
                   (put_Element_To_ID (unat (m_CurrentLast s)) ID)
               else
                 (Inr (), s\<lparr>m_Elements := m_Elements s @ [Element],
                             m_Element_To_ID := m_Element_To_ID s @ [ID]\<rparr>))
              (\<lambda>s1. and_then (put_ID_To_Element (unat ID) (m_CurrentLast s1) s1)
                 (\<lambda>s2. (Inr (), s2\<lparr>m_CurrentLast := m_CurrentLast s2 + 1\<rparr>)))
          else (Inr (), s))"

text \<open>\<^verbatim>\<open>void Remove(IDType ID)\<close>\<close>

definition Remove :: "('w::len, 'e) sset \<Rightarrow> 'w word \<Rightarrow> ('w, 'e, unit) call" where
  "Remove s ID =
     (case Exists_h s ID of
        Inl e \<Rightarrow> (Inl e, s)
      | Inr ex \<Rightarrow>
          if ex then
            (let LastIndex = m_CurrentLast s - 1 in
             case vec_at (m_ID_To_Element s) (unat ID) of
               Inl e \<Rightarrow> (Inl e, s)
             | Inr RemovedElementIndex \<Rightarrow>
                 and_then
                   (if RemovedElementIndex \<noteq> LastIndex then
                      (case vec_at (m_Elements s) (unat LastIndex) of
                         Inl e \<Rightarrow> (Inl e, s)
                       | Inr moved \<Rightarrow>
                           and_then (put_Elements (unat RemovedElementIndex) moved s)
                             (\<lambda>s1. case vec_at (m_Element_To_ID s1) (unat LastIndex) of
                                Inl e \<Rightarrow> (Inl e, s1)
                              | Inr LastElementID \<Rightarrow>
                                  and_then
                                    (put_ID_To_Element (unat LastElementID) RemovedElementIndex s1)
                                    (put_Element_To_ID (unat RemovedElementIndex) LastElementID)))
                    else (Inr (), s))
                   (\<lambda>s3. and_then (put_ID_To_Element (unat ID) m_EmptyIndex s3)
                      (\<lambda>s4. (Inr (), s4\<lparr>m_CurrentLast := m_CurrentLast s4 - 1\<rparr>))))
          else (Inr (), s))"

definition Get_h :: "('w::len, 'e) sset \<Rightarrow> 'w word \<Rightarrow> error + 'e" where
  "Get_h s ID =
     (case vec_at (m_ID_To_Element s) (unat ID) of
        Inl e \<Rightarrow> Inl e
      | Inr elementIndex \<Rightarrow> vec_at (m_Elements s) (unat elementIndex))"

definition GetIfExists_h :: "('w::len, 'e) sset \<Rightarrow> 'w word \<Rightarrow> error + 'e option" where
  "GetIfExists_h s ID =
     (case Exists_h s ID of
        Inl e \<Rightarrow> Inl e
      | Inr ex \<Rightarrow>
          if ex then
            (case vec_at (m_ID_To_Element s) (unat ID) of
               Inl e \<Rightarrow> Inl e
             | Inr elementIndex \<Rightarrow>
                 (case vec_at (m_Elements s) (unat elementIndex) of
                    Inl e \<Rightarrow> Inl e
                  | Inr x \<Rightarrow> Inr (Some x)))
          else Inr None)"

definition GetData_h :: "('w::len, 'e) sset \<Rightarrow> 'e list" where
  "GetData_h s = m_Elements s"

definition ShrinkToFit_h :: "'e \<Rightarrow> ('w::len, 'e) sset \<Rightarrow> ('w, 'e) sset" where
  "ShrinkToFit_h fresh s =
     s\<lparr>m_Elements := vec_resize (m_Elements s) (unat (m_CurrentLast s)) fresh,
       m_Element_To_ID := vec_resize (m_Element_To_ID s) (unat (m_CurrentLast s)) 0\<rparr>"

definition ExtendTo :: "('w::len, 'e) sset \<Rightarrow> 'w word \<Rightarrow> ('w, 'e) sset" where
  "ExtendTo s NumEntries =
     (if unat NumEntries > length (m_ID_To_Element s)
      then s\<lparr>m_ID_To_Element := vec_resize (m_ID_To_Element s) (unat NumEntries) m_EmptyIndex\<rparr>
      else s)"

text \<open>The \<^verbatim>\<open>.h\<close> variant returns the size converted to \<^verbatim>\<open>IDType\<close>.\<close>

definition NumSupportedElements_h :: "('w::len, 'e) sset \<Rightarrow> 'w word" where
  "NumSupportedElements_h s = of_nat (length (m_ID_To_Element s))"

subsection \<open>Sequences of calls\<close>

text \<open>
  The calls that change the object. A caller that catches the exception of a failed call
  goes on with the object as the call left it.
\<close>

datatype ('i, 'e) operation =
    Op_Insert 'i 'e
  | Op_Insert_move 'i 'e
  | Op_Erase 'i
  | Op_Reserve 'i
  | Op_ShrinkToFit

fun apply_hpp :: "'e \<Rightarrow> ('w::len, 'e) sset \<Rightarrow> ('w word, 'e) operation \<Rightarrow> ('w, 'e) sset" where
  "apply_hpp fresh s (Op_Insert i x) = snd (Insert s i x)"
| "apply_hpp fresh s (Op_Insert_move i x) = snd (Insert_move s i x)"
| "apply_hpp fresh s (Op_Erase i) = snd (Erase s i)"
| "apply_hpp fresh s (Op_Reserve n) = Reserve s n"
| "apply_hpp fresh s Op_ShrinkToFit = ShrinkToFit fresh s"

fun apply_h :: "'e \<Rightarrow> ('w::len, 'e) sset \<Rightarrow> ('w word, 'e) operation \<Rightarrow> ('w, 'e) sset" where
  "apply_h fresh s (Op_Insert i x) = snd (Add s i x)"
| "apply_h fresh s (Op_Insert_move i x) = snd (Add_move s i x)"
| "apply_h fresh s (Op_Erase i) = snd (Remove s i)"
| "apply_h fresh s (Op_Reserve n) = ExtendTo s n"
| "apply_h fresh s Op_ShrinkToFit = ShrinkToFit_h fresh s"

text \<open>
  The specification reserves the sentinel: it is never the identifier of an entry. A call
  respects that when it is not an insertion of the sentinel.
\<close>

fun no_sentinel_insert :: "('w::len word, 'e) operation \<Rightarrow> bool" where
  "no_sentinel_insert (Op_Insert i x) = (i \<noteq> InvalidIndex)"
| "no_sentinel_insert (Op_Insert_move i x) = (i \<noteq> InvalidIndex)"
| "no_sentinel_insert (Op_Erase i) = True"
| "no_sentinel_insert (Op_Reserve n) = True"
| "no_sentinel_insert Op_ShrinkToFit = True"

text \<open>Whether the call throws.\<close>

fun throws_hpp :: "('w::len, 'e) sset \<Rightarrow> ('w word, 'e) operation \<Rightarrow> bool" where
  "throws_hpp s (Op_Insert i x) = isl (fst (Insert s i x))"
| "throws_hpp s (Op_Insert_move i x) = isl (fst (Insert_move s i x))"
| "throws_hpp s (Op_Erase i) = isl (fst (Erase s i))"
| "throws_hpp s (Op_Reserve n) = False"
| "throws_hpp s Op_ShrinkToFit = False"

fun throws_h :: "('w::len, 'e) sset \<Rightarrow> ('w word, 'e) operation \<Rightarrow> bool" where
  "throws_h s (Op_Insert i x) = isl (fst (Add s i x))"
| "throws_h s (Op_Insert_move i x) = isl (fst (Add_move s i x))"
| "throws_h s (Op_Erase i) = isl (fst (Remove s i))"
| "throws_h s (Op_Reserve n) = False"
| "throws_h s Op_ShrinkToFit = False"

definition run_hpp :: "'e \<Rightarrow> ('w::len, 'e) sset \<Rightarrow> ('w word, 'e) operation list \<Rightarrow> ('w, 'e) sset" where
  "run_hpp fresh s ops = foldl (apply_hpp fresh) s ops"

definition run_h :: "'e \<Rightarrow> ('w::len, 'e) sset \<Rightarrow> ('w word, 'e) operation list \<Rightarrow> ('w, 'e) sset" where
  "run_h fresh s ops = foldl (apply_h fresh) s ops"

subsection \<open>The consistency invariants\<close>

text \<open>
  The sizes: the two dense vectors have one length, the count is within it, and the sparse
  table is shorter than the sentinel (its size comes from an \<^verbatim>\<open>IDType\<close> argument).
\<close>

definition sizes_ok :: "('w::len, 'e) sset \<Rightarrow> bool" where
  "sizes_ok s \<longleftrightarrow>
     length (m_Element_To_ID s) = length (m_Elements s) \<and>
     unat (m_CurrentLast s) \<le> length (m_Elements s) \<and>
     length (m_ID_To_Element s) \<le> unat (InvalidIndex :: 'w word)"

text \<open>Invariant 1: a sparse entry that is not the sentinel is a live position that points back.\<close>

definition invariant1 :: "('w::len, 'e) sset \<Rightarrow> bool" where
  "invariant1 s \<longleftrightarrow>
     (\<forall>i < length (m_ID_To_Element s).
        m_ID_To_Element s ! i \<noteq> InvalidIndex \<longrightarrow>
          unat (m_ID_To_Element s ! i) < unat (m_CurrentLast s) \<and>
          unat (m_Element_To_ID s ! unat (m_ID_To_Element s ! i)) = i)"

text \<open>Invariant 2: the identifier of a live position is supported and points to the position.\<close>

definition invariant2 :: "('w::len, 'e) sset \<Rightarrow> bool" where
  "invariant2 s \<longleftrightarrow>
     (\<forall>p < unat (m_CurrentLast s).
        unat (m_Element_To_ID s ! p) < length (m_ID_To_Element s) \<and>
        unat (m_ID_To_Element s ! unat (m_Element_To_ID s ! p)) = p)"

definition consistent :: "('w::len, 'e) sset \<Rightarrow> bool" where
  "consistent s \<longleftrightarrow> sizes_ok s \<and> invariant1 s \<and> invariant2 s"

text \<open>
  The dense element vector is not longer than the sentinel, so the sentinel is no
  position of it.
\<close>

definition dense_fits :: "('w::len, 'e) sset \<Rightarrow> bool" where
  "dense_fits s \<longleftrightarrow> length (m_Elements s) \<le> unat (InvalidIndex :: 'w word)"

text \<open>
  The object after the \<^verbatim>\<open>if\<close>/\<^verbatim>\<open>else\<close> of Insert and Add that stores the element and the
  identifier at the dense position \<^verbatim>\<open>m_CurrentLast\<close>, when neither \<^verbatim>\<open>at\<close> throws.
\<close>

definition dense_store :: "('w::len, 'e) sset \<Rightarrow> 'w word \<Rightarrow> 'e \<Rightarrow> ('w, 'e) sset" where
  "dense_store s ident element =
     (if unat (m_CurrentLast s) < length (m_Elements s)
      then s\<lparr>m_Elements := (m_Elements s)[unat (m_CurrentLast s) := element],
             m_Element_To_ID := (m_Element_To_ID s)[unat (m_CurrentLast s) := ident]\<rparr>
      else s\<lparr>m_Elements := m_Elements s @ [element],
             m_Element_To_ID := m_Element_To_ID s @ [ident]\<rparr>)"

text \<open>
  Swap-and-pop as the specification words it (steps 1 to 4 of Erase), to be compared with
  what \<open>Erase\<close> and \<open>Remove\<close> compute.
\<close>

definition spec_swap_remove :: "('w::len, 'e) sset \<Rightarrow> 'w word \<Rightarrow> ('w, 'e) sset" where
  "spec_swap_remove s ident =
     (let removedPos = m_ID_To_Element s ! unat ident;
          lastPos = m_CurrentLast s - 1;
          s1 = (if removedPos \<noteq> lastPos then
                  (let movedId = m_Element_To_ID s ! unat lastPos in
                   s\<lparr>m_Elements := (m_Elements s)[unat removedPos := m_Elements s ! unat lastPos],
                     m_ID_To_Element := (m_ID_To_Element s)[unat movedId := removedPos],
                     m_Element_To_ID := (m_Element_To_ID s)[unat removedPos := movedId]\<rparr>)
                else s)
      in s1\<lparr>m_ID_To_Element := (m_ID_To_Element s1)[unat ident := InvalidIndex],
            m_CurrentLast := m_CurrentLast s - 1\<rparr>)"

section \<open>Basic facts\<close>

lemma Exists_eq:
  "Exists s i = Inr (unat i < length (m_ID_To_Element s) \<and> m_ID_To_Element s ! unat i \<noteq> InvalidIndex)"
  by (simp add: Exists_def vec_at_def)

lemmas stmt_defs = and_then_def put_Elements_def put_Element_To_ID_def put_ID_To_Element_def
  vec_at_def vec_assign_def

lemma Insert_move_present:
  "Exists s i = Inr True \<Longrightarrow> Insert_move s i v = (Inr False, s)"
  by (simp add: Insert_move_def)

lemma Insert_move_out_of_range:
  assumes "length (m_ID_To_Element s) \<le> unat i"
    and "length (m_Element_To_ID s) = length (m_Elements s)"
  shows "Insert_move s i v = (Inl OutOfRange, dense_store s i v)"
  using assms by (simp add: Insert_move_def Exists_eq stmt_defs dense_store_def)

lemma Insert_move_fresh:
  assumes "unat i < length (m_ID_To_Element s)"
    and "m_ID_To_Element s ! unat i = InvalidIndex"
    and "length (m_Element_To_ID s) = length (m_Elements s)"
  shows "Insert_move s i v =
    (Inr True, (dense_store s i v)\<lparr>m_ID_To_Element := (m_ID_To_Element s)[unat i := m_CurrentLast s],
        m_CurrentLast := m_CurrentLast s + 1\<rparr>)"
  using assms by (simp add: Insert_move_def Exists_eq stmt_defs dense_store_def)

lemma Insert_eq_move: "Insert s i v = (map_sum id (\<lambda>_. ()) (fst (Insert_move s i v)), snd (Insert_move s i v))"
  by (simp add: Insert_def Insert_move_def Exists_eq stmt_defs)


lemma unat_Invalid: "unat (InvalidIndex :: 'w::len word) = 2 ^ LENGTH('w) - 1"
  by (simp add: InvalidIndex_def unsigned_minus_1_eq_mask mask_eq_exp_minus_1)

lemma unat_le_Invalid: "unat (x :: 'w::len word) \<le> unat (InvalidIndex :: 'w word)"
  using max_word_max [of x] by (simp add: word_le_nat_alt InvalidIndex_def)

lemma count_room:
  fixes s :: "('w::len, 'e) sset"
  assumes c: "consistent s" and i: "i < length (m_ID_To_Element s)"
    and a: "m_ID_To_Element s ! i = InvalidIndex"
  shows "unat (m_CurrentLast s) < length (m_ID_To_Element s)"
proof -
  let ?c = "unat (m_CurrentLast s)"
  let ?n = "length (m_ID_To_Element s)"
  let ?f = "\<lambda>p. unat (m_Element_To_ID s ! p)"
  have inv2: "\<And>p. p < ?c \<Longrightarrow> ?f p < ?n \<and> unat (m_ID_To_Element s ! ?f p) = p"
    using c by (simp add: consistent_def invariant2_def)
  have lt: "?c \<le> unat (InvalidIndex :: 'w word)"
    by (rule unat_le_Invalid)
  have inj: "inj_on ?f {..<?c}"
    by (rule inj_on_inverseI [where g = "\<lambda>j. unat (m_ID_To_Element s ! j)"]) (simp add: inv2)
  have sub: "?f ` {..<?c} \<subseteq> {..<?n} - {i}"
  proof
    fix j assume "j \<in> ?f ` {..<?c}"
    then obtain p where p: "p < ?c" "j = ?f p" by auto
    then have "j < ?n" "unat (m_ID_To_Element s ! j) = p" using inv2 by auto
    moreover have "unat (m_ID_To_Element s ! i) \<noteq> p" using a p lt by simp
    ultimately show "j \<in> {..<?n} - {i}" by auto
  qed
  have "?c = card (?f ` {..<?c})" using inj by (simp add: card_image)
  also have "\<dots> \<le> card ({..<?n} - {i})" using sub by (intro card_mono) auto
  also have "\<dots> = ?n - 1" using i by simp
  finally show ?thesis using i by simp
qed


lemma Erase_absent: "Exists s i = Inr False \<Longrightarrow> Erase s i = (Inr False, s)"
  by (simp add: Erase_def)

lemma present_facts:
  fixes s :: "('w::len, 'e) sset"
  assumes c: "consistent s" and e: "Exists s i = Inr True"
  shows "unat i < length (m_ID_To_Element s)"
    and "m_ID_To_Element s ! unat i \<noteq> InvalidIndex"
    and "unat (m_ID_To_Element s ! unat i) < unat (m_CurrentLast s)"
    and "unat (m_Element_To_ID s ! unat (m_ID_To_Element s ! unat i)) = unat i"
    and "m_CurrentLast s \<noteq> 0"
    and "unat (m_CurrentLast s - 1) = unat (m_CurrentLast s) - 1"
    and "unat (m_CurrentLast s - 1) < length (m_Elements s)"
    and "length (m_Element_To_ID s) = length (m_Elements s)"
    and "unat (m_Element_To_ID s ! unat (m_CurrentLast s - 1)) < length (m_ID_To_Element s)"
    and "unat (m_ID_To_Element s ! unat (m_Element_To_ID s ! unat (m_CurrentLast s - 1))) = unat (m_CurrentLast s - 1)"
proof -
  show r: "unat i < length (m_ID_To_Element s)" and v: "m_ID_To_Element s ! unat i \<noteq> InvalidIndex"
    using e by (simp_all add: Exists_eq)
  show lt: "unat (m_ID_To_Element s ! unat i) < unat (m_CurrentLast s)"
    and "unat (m_Element_To_ID s ! unat (m_ID_To_Element s ! unat i)) = unat i"
    using c r v by (simp_all add: consistent_def invariant1_def)
  then show nz: "m_CurrentLast s \<noteq> 0" by auto
  then show m1: "unat (m_CurrentLast s - 1) = unat (m_CurrentLast s) - 1"
    by (rule unat_minus_one)
  have pos: "0 < unat (m_CurrentLast s)" using lt by simp
  show "length (m_Element_To_ID s) = length (m_Elements s)"
    and "unat (m_CurrentLast s - 1) < length (m_Elements s)"
    using c pos m1 by (auto simp add: consistent_def sizes_ok_def)
  have "unat (m_CurrentLast s - 1) < unat (m_CurrentLast s)" using pos m1 by simp
  then show "unat (m_Element_To_ID s ! unat (m_CurrentLast s - 1)) < length (m_ID_To_Element s)"
    and "unat (m_ID_To_Element s ! unat (m_Element_To_ID s ! unat (m_CurrentLast s - 1))) = unat (m_CurrentLast s - 1)"
    using c by (simp_all add: consistent_def invariant2_def)
qed

lemma Erase_present:
  fixes s :: "('w::len, 'e) sset"
  assumes c: "consistent s" and e: "Exists s i = Inr True"
  shows "Erase s i = (Inr True, spec_swap_remove s i)"
proof -
  note f = present_facts [OF c e]
  have "unat (m_ID_To_Element s ! unat i) < length (m_Elements s)"
    using f(3,6,7) by simp
  then show ?thesis
    using f by (simp add: Erase_def e stmt_defs spec_swap_remove_def Let_def)
qed


lemma dense_store_simps [simp]:
  "m_ID_To_Element (dense_store s i v) = m_ID_To_Element s"
  "m_CurrentLast (dense_store s i v) = m_CurrentLast s"
  "length (m_Element_To_ID s) = length (m_Elements s) \<Longrightarrow>
     length (m_Element_To_ID (dense_store s i v)) = length (m_Elements (dense_store s i v))"
  by (simp_all add: dense_store_def)

lemma dense_store_live [simp]:
  assumes "length (m_Element_To_ID s) = length (m_Elements s)"
    and "unat (m_CurrentLast s) \<le> length (m_Elements s)"
    and "p < unat (m_CurrentLast s)"
  shows "m_Element_To_ID (dense_store s i v) ! p = m_Element_To_ID s ! p"
    and "m_Elements (dense_store s i v) ! p = m_Elements s ! p"
  using assms by (simp_all add: dense_store_def nth_append)

lemma dense_store_slot:
  assumes "length (m_Element_To_ID s) = length (m_Elements s)"
    and "unat (m_CurrentLast s) \<le> length (m_Elements s)"
  shows "m_Element_To_ID (dense_store s i v) ! unat (m_CurrentLast s) = i"
    and "m_Elements (dense_store s i v) ! unat (m_CurrentLast s) = v"
    and "unat (m_CurrentLast s) < length (m_Elements (dense_store s i v))"
  using assms by (auto simp add: dense_store_def nth_append)

lemma consistent_dense_store:
  assumes "consistent s"
  shows "consistent (dense_store s i v)"
  using assms dense_store_slot(3) [of s i v]
  by (simp add: consistent_def sizes_ok_def invariant1_def invariant2_def)

lemma consistent_Insert_fresh:
  fixes s :: "('w::len, 'e) sset"
  assumes c: "consistent s" and r: "unat i < length (m_ID_To_Element s)"
    and a: "m_ID_To_Element s ! unat i = InvalidIndex"
  shows "consistent ((dense_store s i v)\<lparr>m_ID_To_Element := (m_ID_To_Element s)[unat i := m_CurrentLast s],
        m_CurrentLast := m_CurrentLast s + 1\<rparr>)" (is "consistent ?t")
proof -
  let ?c = "unat (m_CurrentLast s)"
  have room: "?c < length (m_ID_To_Element s)" by (rule count_room [OF c r a])
  have n: "length (m_ID_To_Element s) \<le> unat (InvalidIndex :: 'w word)"
    and le: "?c \<le> length (m_Elements s)"
    and len: "length (m_Element_To_ID s) = length (m_Elements s)"
    using c by (simp_all add: consistent_def sizes_ok_def)
  have ninv: "m_CurrentLast s \<noteq> InvalidIndex" using room n by auto
  have "unat (m_CurrentLast s) + unat (1 :: 'w word) < 2 ^ LENGTH('w)"
    using room n by (simp add: unat_Invalid)
  then have suc: "unat (m_CurrentLast s + 1) = Suc ?c"
    by (simp add: unat_add_lem [THEN iffD1])
  have i1: "\<And>j. j < length (m_ID_To_Element s) \<Longrightarrow> m_ID_To_Element s ! j \<noteq> InvalidIndex \<Longrightarrow>
      unat (m_ID_To_Element s ! j) < ?c \<and> unat (m_Element_To_ID s ! unat (m_ID_To_Element s ! j)) = j"
    using c by (simp add: consistent_def invariant1_def)
  have i2: "\<And>p. p < ?c \<Longrightarrow> unat (m_Element_To_ID s ! p) < length (m_ID_To_Element s) \<and>
      unat (m_ID_To_Element s ! unat (m_Element_To_ID s ! p)) = p"
    using c by (simp add: consistent_def invariant2_def)
  note slot = dense_store_slot [OF len le, of i v]
  have "sizes_ok ?t"
    using slot(3) len n suc by (simp add: sizes_ok_def)
  moreover have "invariant1 ?t"
    unfolding invariant1_def
  proof (intro allI impI)
    fix j assume j: "j < length (m_ID_To_Element ?t)" and v: "m_ID_To_Element ?t ! j \<noteq> InvalidIndex"
    show "unat (m_ID_To_Element ?t ! j) < unat (m_CurrentLast ?t) \<and>
          unat (m_Element_To_ID ?t ! unat (m_ID_To_Element ?t ! j)) = j"
    proof (cases "j = unat i")
      case True
      then show ?thesis using r slot(1) suc by simp
    next
      case False
      then show ?thesis using j v i1 [of j] suc len le by simp
    qed
  qed
  moreover have "invariant2 ?t"
    unfolding invariant2_def
  proof (intro allI impI)
    fix p assume p: "p < unat (m_CurrentLast ?t)"
    show "unat (m_Element_To_ID ?t ! p) < length (m_ID_To_Element ?t) \<and>
          unat (m_ID_To_Element ?t ! unat (m_Element_To_ID ?t ! p)) = p"
    proof (cases "p = ?c")
      case True
      then show ?thesis using r slot(1) by simp
    next
      case False
      then have lt: "p < ?c" using p suc by simp
      have "unat (m_Element_To_ID s ! p) \<noteq> unat i"
        using i2 [OF lt] a lt unat_le_Invalid [of "m_CurrentLast s"] by auto
      then show ?thesis using lt i2 [OF lt] len le by simp
    qed
  qed
  ultimately show ?thesis by (simp add: consistent_def)
qed


lemma consistentI:
  fixes t :: "('w::len, 'e) sset"
  assumes "sizes_ok t"
    and "\<And>j. j < length (m_ID_To_Element t) \<Longrightarrow> m_ID_To_Element t ! j \<noteq> InvalidIndex \<Longrightarrow>
      unat (m_ID_To_Element t ! j) < unat (m_CurrentLast t) \<and>
      unat (m_Element_To_ID t ! unat (m_ID_To_Element t ! j)) = j"
    and "\<And>p. p < unat (m_CurrentLast t) \<Longrightarrow>
      unat (m_Element_To_ID t ! p) < length (m_ID_To_Element t) \<and>
      unat (m_ID_To_Element t ! unat (m_Element_To_ID t ! p)) = p"
  shows "consistent t"
  using assms by (simp add: consistent_def invariant1_def invariant2_def)

lemma consistent_swap_remove:
  fixes s :: "('w::len, 'e) sset"
  assumes c: "consistent s" and e: "Exists s i = Inr True"
  shows "consistent (spec_swap_remove s i)" (is "consistent ?t")
proof -
  note f = present_facts [OF c e]
  let ?sp = "m_ID_To_Element s" and ?ei = "m_Element_To_ID s"
  let ?c = "unat (m_CurrentLast s)"
  let ?rp = "unat (?sp ! unat i)" and ?lp = "unat (m_CurrentLast s - 1)"
  let ?m = "unat (?ei ! ?lp)"
  have i1: "\<And>j. j < length ?sp \<Longrightarrow> ?sp ! j \<noteq> InvalidIndex \<Longrightarrow>
      unat (?sp ! j) < ?c \<and> unat (?ei ! unat (?sp ! j)) = j"
    using c by (simp add: consistent_def invariant1_def)
  have i2: "\<And>p. p < ?c \<Longrightarrow> unat (?ei ! p) < length ?sp \<and> unat (?sp ! unat (?ei ! p)) = p"
    using c by (simp add: consistent_def invariant2_def)
  have sz: "length ?ei = length (m_Elements s)" "?c \<le> length (m_Elements s)"
    "length ?sp \<le> unat (InvalidIndex :: 'w word)"
    using c by (simp_all add: consistent_def sizes_ok_def)
  have lp: "?lp = ?c - 1" "0 < ?c" using f by simp_all
  show ?thesis
  proof (cases "?sp ! unat i = m_CurrentLast s - 1")
    case True
    then have rl: "?rp = ?lp" by simp
    have F: "m_ID_To_Element ?t = ?sp[unat i := InvalidIndex]" "m_Element_To_ID ?t = ?ei"
      "m_CurrentLast ?t = m_CurrentLast s - 1" "m_Elements ?t = m_Elements s"
      using True by (simp_all add: spec_swap_remove_def)
    show ?thesis
    proof (rule consistentI)
      show "sizes_ok ?t" using sz lp by (simp add: sizes_ok_def F)
    next
      fix j assume "j < length (m_ID_To_Element ?t)" "m_ID_To_Element ?t ! j \<noteq> InvalidIndex"
      then have jl: "j < length ?sp" and ji: "j \<noteq> unat i" and jv: "?sp ! j \<noteq> InvalidIndex"
        unfolding F by (cases "j = unat i"; simp)+
      have "unat (?sp ! j) \<noteq> ?lp"
        using i1 [OF jl jv] f(4) ji rl by auto
      then show "unat (m_ID_To_Element ?t ! j) < unat (m_CurrentLast ?t) \<and>
          unat (m_Element_To_ID ?t ! unat (m_ID_To_Element ?t ! j)) = j"
        unfolding F using i1 [OF jl jv] ji lp by auto
    next
      fix p assume "p < unat (m_CurrentLast ?t)"
      then have p: "p < ?c" "p \<noteq> ?rp" unfolding F using lp rl by simp_all
      then have "unat (?ei ! p) \<noteq> unat i" using i2 [of p] by auto
      then show "unat (m_Element_To_ID ?t ! p) < length (m_ID_To_Element ?t) \<and>
          unat (m_ID_To_Element ?t ! unat (m_Element_To_ID ?t ! p)) = p"
        unfolding F using i2 [OF p(1)] by simp
    qed
  next
    case False
    then have rl: "?rp \<noteq> ?lp" by (simp add: word_unat_eq_iff)
    then have rlt: "?rp < ?lp" using f(3) lp by simp
    have mi: "?m \<noteq> unat i" using f(4,10) rl by auto
    have F: "m_ID_To_Element ?t = ?sp[?m := ?sp ! unat i, unat i := InvalidIndex]"
      "m_Element_To_ID ?t = ?ei[?rp := ?ei ! ?lp]"
      "m_CurrentLast ?t = m_CurrentLast s - 1"
      "m_Elements ?t = (m_Elements s)[?rp := m_Elements s ! ?lp]"
      using False by (simp_all add: spec_swap_remove_def Let_def)
    show ?thesis
    proof (rule consistentI)
      show "sizes_ok ?t" using sz lp by (simp add: sizes_ok_def F)
    next
      fix j assume "j < length (m_ID_To_Element ?t)" "m_ID_To_Element ?t ! j \<noteq> InvalidIndex"
      then have jl: "j < length ?sp" and ji: "j \<noteq> unat i"
        unfolding F by (cases "j = unat i"; simp)+
      show "unat (m_ID_To_Element ?t ! j) < unat (m_CurrentLast ?t) \<and>
          unat (m_Element_To_ID ?t ! unat (m_ID_To_Element ?t ! j)) = j"
      proof (cases "j = ?m")
        case True
        then show ?thesis unfolding F using rlt ji jl f(3,7) sz by simp
      next
        case jm: False
        then have jv: "?sp ! j \<noteq> InvalidIndex"
          using \<open>m_ID_To_Element ?t ! j \<noteq> InvalidIndex\<close> ji unfolding F by simp
        have "unat (?sp ! j) \<noteq> ?lp" "unat (?sp ! j) \<noteq> ?rp"
          using i1 [OF jl jv] f(4) ji jm by auto
        then show ?thesis unfolding F using i1 [OF jl jv] ji jm lp by auto
      qed
    next
      fix p assume "p < unat (m_CurrentLast ?t)"
      then have p: "p < ?c" "p < ?lp" unfolding F using lp by simp_all
      show "unat (m_Element_To_ID ?t ! p) < length (m_ID_To_Element ?t) \<and>
          unat (m_ID_To_Element ?t ! unat (m_Element_To_ID ?t ! p)) = p"
      proof (cases "p = ?rp")
        case True
        then show ?thesis unfolding F using f(3,7,9) sz mi by simp
      next
        case False
        then have "unat (?ei ! p) \<noteq> unat i" "unat (?ei ! p) \<noteq> ?m"
          using i2 [OF p(1)] f(10) p(2) by auto
        then show ?thesis unfolding F using i2 [OF p(1)] False by simp
      qed
    qed
  qed
qed

lemma m_EmptyIndex_eq: "m_EmptyIndex = InvalidIndex"
  by (simp add: m_EmptyIndex_def InvalidIndex_def)

lemma Exists_h_eq: "Exists_h s i = Exists s i"
  by (simp add: Exists_h_def Exists_def m_EmptyIndex_eq vec_at_def)

lemma Add_eq: "Add s i v = Insert s i v"
  by (simp add: Add_def Insert_def Exists_h_eq)

lemma Add_move_eq: "Add_move s i v = Insert s i v"
  by (simp add: Add_move_def Insert_def Exists_h_eq)

lemma Get_h_eq: "Get_h s i = Get s i"
  by (simp add: Get_h_def Get_def)

lemma GetIfExists_h_eq: "GetIfExists_h s i = GetIfExists s i"
  by (simp add: GetIfExists_h_def GetIfExists_def Exists_h_eq)

lemma ShrinkToFit_h_eq: "ShrinkToFit_h fresh s = ShrinkToFit fresh s"
  by (simp add: ShrinkToFit_h_def ShrinkToFit_def)

lemma ExtendTo_eq: "ExtendTo s n = Reserve s n"
  by (simp add: ExtendTo_def Reserve_def m_EmptyIndex_eq)

lemma SparseSet_h_eq: "SparseSet_h n = SparseSet n"
  by (simp add: SparseSet_h_def SparseSet_def SparseSet_h_default_def vec_resize_def m_EmptyIndex_eq)

lemma SparseSet_h_default_eq: "SparseSet_h_default = SparseSet_default"
  by (simp add: SparseSet_h_default_def SparseSet_default_def)

lemma Exists_cases:
  "Exists s i = Inr True \<or> Exists s i = Inr False"
  by (simp add: Exists_eq)

lemma Remove_eq: "Remove s i = (map_sum id (\<lambda>_. ()) (fst (Erase s i)), snd (Erase s i))"
  by (simp add: Remove_def Erase_def Exists_h_eq m_EmptyIndex_eq Exists_eq Let_def stmt_defs)

lemma consistent_SparseSet_default: "consistent SparseSet_default"
  by (simp add: consistent_def sizes_ok_def invariant1_def invariant2_def SparseSet_default_def)

lemma consistent_SparseSet: "consistent (SparseSet n)"
  by (simp add: consistent_def sizes_ok_def invariant1_def invariant2_def SparseSet_def unat_le_Invalid)

lemma consistent_Reserve:
  assumes "consistent s" shows "consistent (Reserve s n)"
  using assms unat_le_Invalid [of n]
  by (auto simp add: consistent_def sizes_ok_def invariant1_def invariant2_def Reserve_def
      vec_resize_def nth_append)

lemma ShrinkToFit_consistent_eq:
  assumes "consistent s"
  shows "ShrinkToFit fresh s =
    s\<lparr>m_Elements := take (unat (m_CurrentLast s)) (m_Elements s),
      m_Element_To_ID := take (unat (m_CurrentLast s)) (m_Element_To_ID s)\<rparr>"
  using assms by (simp add: ShrinkToFit_def vec_resize_def consistent_def sizes_ok_def)

lemma consistent_ShrinkToFit:
  assumes "consistent s" shows "consistent (ShrinkToFit fresh s)"
  using assms unfolding ShrinkToFit_consistent_eq [OF assms]
  by (auto simp add: consistent_def sizes_ok_def invariant1_def invariant2_def)

lemma consistent_Insert_move:
  assumes c: "consistent s" shows "consistent (snd (Insert_move s i v))"
proof -
  have len: "length (m_Element_To_ID s) = length (m_Elements s)"
    using c by (simp add: consistent_def sizes_ok_def)
  consider (present) "Exists s i = Inr True"
    | (range) "length (m_ID_To_Element s) \<le> unat i"
    | (fresh) "unat i < length (m_ID_To_Element s)" "m_ID_To_Element s ! unat i = InvalidIndex"
    by atomize_elim (auto simp add: Exists_eq)
  then show ?thesis
  proof cases
    case present
    then show ?thesis using c by (simp add: Insert_move_present)
  next
    case range
    then show ?thesis using c by (simp add: Insert_move_out_of_range [OF range len] consistent_dense_store)
  next
    case fresh
    then show ?thesis using c
      by (simp add: Insert_move_fresh [OF fresh len] consistent_Insert_fresh)
  qed
qed

lemma consistent_Insert:
  assumes "consistent s" shows "consistent (snd (Insert s i v))"
  using consistent_Insert_move [OF assms] by (simp add: Insert_eq_move)

lemma consistent_Erase:
  assumes c: "consistent s" shows "consistent (snd (Erase s i))"
  using Exists_cases [of s i] c
  by (auto simp add: Erase_absent Erase_present consistent_swap_remove)

lemma Get_present:
  assumes c: "consistent s" and e: "Exists s i = Inr True"
  shows "Get s i = Inr (m_Elements s ! unat (m_ID_To_Element s ! unat i))"
proof -
  note f = present_facts [OF c e]
  have "unat (m_ID_To_Element s ! unat i) < length (m_Elements s)"
    using f(3,6,7) by simp
  then show ?thesis using f(1) by (simp add: Get_def vec_at_def)
qed

lemma GetIfExists_present:
  assumes c: "consistent s" and e: "Exists s i = Inr True"
  shows "GetIfExists s i = Inr (Some (m_Elements s ! unat (m_ID_To_Element s ! unat i)))"
proof -
  note f = present_facts [OF c e]
  have "unat (m_ID_To_Element s ! unat i) < length (m_Elements s)"
    using f(3,6,7) by simp
  then show ?thesis using f(1) e by (simp add: GetIfExists_def vec_at_def)
qed

lemma GetIfExists_absent: "Exists s i = Inr False \<Longrightarrow> GetIfExists s i = Inr None"
  by (simp add: GetIfExists_def)

lemma GetIfExists_Insert_move:
  fixes s :: "('w::len, 'e) sset"
  assumes c: "consistent s"
  shows "GetIfExists (snd (Insert_move s i v)) j =
    (if j = i \<and> unat i < length (m_ID_To_Element s) \<and> Exists s i = Inr False
     then Inr (Some v) else GetIfExists s j)"
proof -
  have len: "length (m_Element_To_ID s) = length (m_Elements s)"
    and le: "unat (m_CurrentLast s) \<le> length (m_Elements s)"
    using c by (simp_all add: consistent_def sizes_ok_def)
  consider (present) "Exists s i = Inr True"
    | (range) "length (m_ID_To_Element s) \<le> unat i"
    | (fresh) "unat i < length (m_ID_To_Element s)" "m_ID_To_Element s ! unat i = InvalidIndex"
    by atomize_elim (auto simp add: Exists_eq)
  then show ?thesis
  proof cases
    case present
    then show ?thesis by (simp add: Insert_move_present)
  next
    case range
    let ?t = "dense_store s i v"
    have t: "snd (Insert_move s i v) = ?t" by (simp add: Insert_move_out_of_range [OF range len])
    have ct: "consistent ?t" using c by (rule consistent_dense_store)
    have ex: "Exists ?t j = Exists s j" by (simp add: Exists_eq)
    show ?thesis
    proof (cases "Exists s j = Inr True")
      case True
      then have "unat (m_ID_To_Element s ! unat j) < unat (m_CurrentLast s)"
        using present_facts(3) [OF c] by simp
      then show ?thesis
        using True range len le
        by (simp add: t GetIfExists_present [OF c True] GetIfExists_present [OF ct, of j] ex)
    next
      case False
      then have "Exists s j = Inr False" using Exists_cases [of s j] by simp
      then show ?thesis using range by (simp add: t GetIfExists_absent ex)
    qed
  next
    case fresh
    let ?t = "(dense_store s i v)\<lparr>m_ID_To_Element := (m_ID_To_Element s)[unat i := m_CurrentLast s],
        m_CurrentLast := m_CurrentLast s + 1\<rparr>"
    have t: "snd (Insert_move s i v) = ?t" by (simp add: Insert_move_fresh [OF fresh len])
    have ct: "consistent ?t" using c fresh by (rule consistent_Insert_fresh)
    have room: "unat (m_CurrentLast s) < length (m_ID_To_Element s)"
      by (rule count_room [OF c fresh])
    have ninv: "m_CurrentLast s \<noteq> InvalidIndex"
      using room c by (auto simp add: consistent_def sizes_ok_def)
    have ei: "Exists s i = Inr False" using fresh by (simp add: Exists_eq)
    show ?thesis
    proof (cases "j = i")
      case True
      have "Exists ?t i = Inr True" using fresh ninv by (simp add: Exists_eq)
      then show ?thesis
        using True fresh ei dense_store_slot(2) [OF len le, of i v]
        by (simp add: t GetIfExists_present [OF ct])
    next
      case False
      then have ne: "unat j \<noteq> unat i" by (simp add: word_unat_eq_iff)
      then have ex: "Exists ?t j = Exists s j" by (simp add: Exists_eq)
      show ?thesis
      proof (cases "Exists s j = Inr True")
        case True
        then have "unat (m_ID_To_Element s ! unat j) < unat (m_CurrentLast s)"
          using present_facts(3) [OF c] by simp
        then show ?thesis
          using True False ne len le ex
          by (simp add: t GetIfExists_present [OF c True] GetIfExists_present [OF ct, of j])
      next
        case F: False
        then have "Exists s j = Inr False" using Exists_cases [of s j] by simp
        then show ?thesis using False ex by (simp add: t GetIfExists_absent)
      qed
    qed
  qed
qed

lemma GetIfExists_Erase:
  fixes s :: "('w::len, 'e) sset"
  assumes c: "consistent s"
  shows "GetIfExists (snd (Erase s i)) j = (if j = i then Inr None else GetIfExists s j)"
proof (cases "Exists s i = Inr True")
  case False
  then have a: "Exists s i = Inr False" using Exists_cases [of s i] by simp
  then show ?thesis by (simp add: Erase_absent GetIfExists_absent)
next
  case e: True
  let ?t = "spec_swap_remove s i"
  note f = present_facts [OF c e]
  have t: "snd (Erase s i) = ?t" by (simp add: Erase_present [OF c e])
  have ct: "consistent ?t" using c e by (rule consistent_swap_remove)
  let ?sp = "m_ID_To_Element s" and ?ei = "m_Element_To_ID s"
  let ?rp = "unat (?sp ! unat i)" and ?lp = "unat (m_CurrentLast s - 1)"
  let ?m = "unat (?ei ! ?lp)"
  have spi: "unat i < length (m_ID_To_Element ?t)" "m_ID_To_Element ?t ! unat i = InvalidIndex"
    using f(1,9) by (simp_all add: spec_swap_remove_def Let_def)
  show ?thesis
  proof (cases "j = i")
    case True
    then show ?thesis using spi by (simp add: t GetIfExists_absent Exists_eq)
  next
    case ji: False
    then have ne: "unat j \<noteq> unat i" by (simp add: word_unat_eq_iff)
    show ?thesis
    proof (cases "?sp ! unat i = m_CurrentLast s - 1")
      case True
      then have F: "m_ID_To_Element ?t = ?sp[unat i := InvalidIndex]"
        "m_Elements ?t = m_Elements s"
        by (simp_all add: spec_swap_remove_def)
      have ex: "Exists ?t j = Exists s j" using ne by (simp add: Exists_eq F)
      show ?thesis
      proof (cases "Exists s j = Inr True")
        case ej: True
        show ?thesis
          using ji ne ej ex
          by (simp add: t GetIfExists_present [OF c ej] GetIfExists_present [OF ct, of j] F)
      next
        case False
        then have "Exists s j = Inr False" using Exists_cases [of s j] by simp
        then show ?thesis using ji ex by (simp add: t GetIfExists_absent)
      qed
    next
      case False
      then have rl: "?rp \<noteq> ?lp" by (simp add: word_unat_eq_iff)
      have mi: "?m \<noteq> unat i" using f(4,10) rl by auto
      have F: "m_ID_To_Element ?t = ?sp[?m := ?sp ! unat i, unat i := InvalidIndex]"
        "m_Elements ?t = (m_Elements s)[?rp := m_Elements s ! ?lp]"
        using False by (simp_all add: spec_swap_remove_def Let_def)
      have rpl: "?rp < length (m_Elements s)" using f(3,6,7) by simp
      show ?thesis
      proof (cases "Exists s j = Inr True")
        case ej: True
        note g = present_facts [OF c ej]
        show ?thesis
        proof (cases "unat j = ?m")
          case True
          then have ex: "Exists ?t j = Inr True"
            using ne g(1) f(2) by (simp add: Exists_eq F)
          have "unat (?sp ! unat j) = ?lp" using True f(10) by simp
          then show ?thesis
            using ji ne True f(9) rpl
            by (simp add: t GetIfExists_present [OF c ej] GetIfExists_present [OF ct ex] F)
        next
          case jm: False
          then have ex: "Exists ?t j = Inr True"
            using ne g(1,2) by (simp add: Exists_eq F)
          have "unat (?sp ! unat j) \<noteq> ?rp" using g(4) f(4) ne by auto
          then show ?thesis
            using ji ne jm
            by (simp add: t GetIfExists_present [OF c ej] GetIfExists_present [OF ct ex] F)
        qed
      next
        case False
        then have a: "Exists s j = Inr False" using Exists_cases [of s j] by simp
        have "0 < unat (m_CurrentLast s)" using f(3) by simp
        then have "?lp < unat (InvalidIndex :: 'w word)"
          using f(6) unat_le_Invalid [of "m_CurrentLast s"] by simp
        then have "?sp ! ?m \<noteq> InvalidIndex" using f(10) by auto
        then have "unat j \<noteq> ?m" using a f(9) by (auto simp add: Exists_eq)
        then have "Exists ?t j = Inr False" using a ne by (auto simp add: Exists_eq F)
        then show ?thesis using ji a by (simp add: t GetIfExists_absent)
      qed
    qed
  qed
qed

lemma Insert_fresh:
  assumes "unat i < length (m_ID_To_Element s)"
    and "m_ID_To_Element s ! unat i = InvalidIndex"
    and "length (m_Element_To_ID s) = length (m_Elements s)"
  shows "Insert s i v =
    (Inr (), (dense_store s i v)\<lparr>m_ID_To_Element := (m_ID_To_Element s)[unat i := m_CurrentLast s],
        m_CurrentLast := m_CurrentLast s + 1\<rparr>)"
  by (simp add: Insert_eq_move Insert_move_fresh [OF assms])

lemma Invalid32: "(InvalidIndex :: 32 word) = 4294967295"
  by (simp add: InvalidIndex_def)

lemma replicate4: "replicate 4 x = [x, x, x, x]"
  by (simp add: eval_nat_numeral)

lemma three_inserted:
  "snd (Insert (snd (Insert (snd (Insert (SparseSet 4 :: (32, 'e) sset) 1 v1)) 2 v2)) 3 v3) =
   \<lparr>m_ID_To_Element = [InvalidIndex, 0, 1, 2], m_Element_To_ID = [1, 2, 3],
     m_Elements = [v1, v2, v3], m_CurrentLast = 3\<rparr>"
proof -
  have "snd (Insert (SparseSet 4 :: (32, 'e) sset) 1 v1) =
     \<lparr>m_ID_To_Element = [InvalidIndex, 0, InvalidIndex, InvalidIndex], m_Element_To_ID = [1],
       m_Elements = [v1], m_CurrentLast = 1\<rparr>"
    by (simp add: Insert_fresh SparseSet_def dense_store_def replicate4 Invalid32)
  moreover have "snd (Insert \<lparr>m_ID_To_Element = [InvalidIndex, 0, InvalidIndex, InvalidIndex :: 32 word],
       m_Element_To_ID = [1], m_Elements = [v1], m_CurrentLast = 1\<rparr> 2 v2) =
     \<lparr>m_ID_To_Element = [InvalidIndex, 0, 1, InvalidIndex], m_Element_To_ID = [1, 2],
       m_Elements = [v1, v2], m_CurrentLast = 2\<rparr>"
    by (simp add: Insert_fresh dense_store_def Invalid32)
  moreover have "snd (Insert \<lparr>m_ID_To_Element = [InvalidIndex, 0, 1, InvalidIndex :: 32 word],
       m_Element_To_ID = [1, 2], m_Elements = [v1, v2], m_CurrentLast = 2\<rparr> 3 v3) =
     \<lparr>m_ID_To_Element = [InvalidIndex, 0, 1, 2], m_Element_To_ID = [1, 2, 3],
       m_Elements = [v1, v2, v3], m_CurrentLast = 3\<rparr>"
    by (simp add: Insert_fresh dense_store_def Invalid32)
  ultimately show ?thesis by simp
qed

lemma three_inserted_erase:
  "Erase \<lparr>m_ID_To_Element = [InvalidIndex, 0, 1, 2 :: 32 word], m_Element_To_ID = [1, 2, 3],
     m_Elements = [v1, v2, v3], m_CurrentLast = 3\<rparr> 1 =
   (Inr True, \<lparr>m_ID_To_Element = [InvalidIndex, InvalidIndex, 1, 0], m_Element_To_ID = [3, 2, 3],
     m_Elements = [v3, v2, v3], m_CurrentLast = 2\<rparr>)"
  by (simp add: Erase_def Exists_eq stmt_defs Let_def Invalid32)

subsection \<open>Sequences of calls, and the calls that keep the dense arrays\<close>

lemma length_sparse_Insert_move:
  "length (m_ID_To_Element (snd (Insert_move s i v))) = length (m_ID_To_Element s)"
  by (simp add: Insert_move_def Exists_eq stmt_defs)

lemma length_sparse_Insert:
  "length (m_ID_To_Element (snd (Insert s i v))) = length (m_ID_To_Element s)"
  by (simp add: Insert_eq_move length_sparse_Insert_move)

lemma length_sparse_Erase:
  "length (m_ID_To_Element (snd (Erase s i))) = length (m_ID_To_Element s)"
  by (simp add: Erase_def Exists_eq stmt_defs Let_def)

lemma length_sparse_Reserve:
  "length (m_ID_To_Element (Reserve s n)) = max (length (m_ID_To_Element s)) (unat n)"
  by (simp add: Reserve_def vec_resize_def)

lemma length_sparse_ShrinkToFit:
  "length (m_ID_To_Element (ShrinkToFit fresh s)) = length (m_ID_To_Element s)"
  by (simp add: ShrinkToFit_def)

lemma length_sparse_apply_hpp:
  "length (m_ID_To_Element s) \<le> length (m_ID_To_Element (apply_hpp fresh s op))"
  by (cases op)
    (simp_all add: length_sparse_Insert length_sparse_Insert_move length_sparse_Erase
      length_sparse_Reserve length_sparse_ShrinkToFit)

lemma apply_h_eq: "apply_h fresh s op = apply_hpp fresh s op"
  by (cases op) (simp_all add: Add_eq Add_move_eq Remove_eq ExtendTo_eq ShrinkToFit_h_eq Insert_eq_move)

lemma run_h_eq: "run_h fresh s ops = run_hpp fresh s ops"
  unfolding run_h_def run_hpp_def by (induction ops arbitrary: s) (simp_all add: apply_h_eq)

lemma throws_h_eq: "throws_h s op = throws_hpp s op"
  by (cases op) (simp_all add: Add_eq Add_move_eq Remove_eq Insert_eq_move isl_map_sum)

lemma length_sparse_run_hpp:
  "length (m_ID_To_Element s) \<le> length (m_ID_To_Element (run_hpp fresh s ops))"
  unfolding run_hpp_def
proof (induction ops arbitrary: s)
  case Nil
  show ?case by simp
next
  case (Cons op ops)
  have "length (m_ID_To_Element s) \<le> length (m_ID_To_Element (apply_hpp fresh s op))"
    by (rule length_sparse_apply_hpp)
  also have "\<dots> \<le> length (m_ID_To_Element (foldl (apply_hpp fresh) (apply_hpp fresh s op) ops))"
    by (rule Cons.IH)
  finally show ?case by simp
qed

lemma consistent_apply_hpp:
  "consistent s \<Longrightarrow> consistent (apply_hpp fresh s op)"
  by (cases op)
    (simp_all add: consistent_Insert consistent_Insert_move consistent_Erase consistent_Reserve
      consistent_ShrinkToFit)

lemma consistent_run_hpp:
  "consistent s \<Longrightarrow> consistent (run_hpp fresh s ops)"
  unfolding run_hpp_def by (induction ops arbitrary: s) (simp_all add: consistent_apply_hpp)

lemma Exists_Reserve: "Exists (Reserve s n) j = Exists s j"
  by (simp add: Exists_eq Reserve_def vec_resize_def nth_append)

lemma GetIfExists_Reserve: "GetIfExists (Reserve s n) j = GetIfExists s j"
proof (cases "Exists s j = Inr True")
  case True
  then have "unat j < length (m_ID_To_Element s)" by (simp add: Exists_eq)
  then show ?thesis
    using True Exists_Reserve [of s n j]
    by (simp add: GetIfExists_def Reserve_def vec_resize_def vec_at_def nth_append)
next
  case False
  then have "Exists s j = Inr False" using Exists_cases [of s j] by simp
  then show ?thesis by (simp add: GetIfExists_absent Exists_Reserve)
qed

lemma Exists_ShrinkToFit: "Exists (ShrinkToFit fresh s) j = Exists s j"
  by (simp add: Exists_eq ShrinkToFit_def)

lemma GetIfExists_ShrinkToFit:
  assumes c: "consistent s"
  shows "GetIfExists (ShrinkToFit fresh s) j = GetIfExists s j"
proof (cases "Exists s j = Inr True")
  case True
  have ct: "consistent (ShrinkToFit fresh s)" using c by (rule consistent_ShrinkToFit)
  have et: "Exists (ShrinkToFit fresh s) j = Inr True" using True by (simp add: Exists_ShrinkToFit)
  show ?thesis
    unfolding GetIfExists_present [OF c True] GetIfExists_present [OF ct et]
    using present_facts(3) [OF c True]
    by (simp add: ShrinkToFit_consistent_eq [OF c])
next
  case False
  then have "Exists s j = Inr False" using Exists_cases [of s j] by simp
  then show ?thesis by (simp add: GetIfExists_absent Exists_ShrinkToFit)
qed

lemma Get_ShrinkToFit:
  assumes c: "consistent s" and e: "Exists s j = Inr True"
  shows "Get (ShrinkToFit fresh s) j = Get s j"
proof -
  have ct: "consistent (ShrinkToFit fresh s)" using c by (rule consistent_ShrinkToFit)
  have et: "Exists (ShrinkToFit fresh s) j = Inr True" using e by (simp add: Exists_ShrinkToFit)
  show ?thesis
    unfolding Get_present [OF c e] Get_present [OF ct et]
    using present_facts(3) [OF c e]
    by (simp add: ShrinkToFit_consistent_eq [OF c])
qed

subsection \<open>Filling a set in order\<close>

lemma run_hpp_snoc: "run_hpp fresh s (ops @ [op]) = apply_hpp fresh (run_hpp fresh s ops) op"
  by (simp add: run_hpp_def)

lemma run_hpp_append: "run_hpp fresh s (ops @ ops') = run_hpp fresh (run_hpp fresh s ops) ops'"
  by (simp add: run_hpp_def)

lemma replicate_update_first:
  "0 < m \<Longrightarrow> (xs @ replicate m a)[length xs := b] = xs @ [b] @ replicate (m - 1) a"
  by (cases m) (simp_all add: list_update_append)

text \<open>Filling a set for \<open>n\<close> identifiers with the identifiers \<open>0, ..., k - 1\<close> in order.\<close>

lemma fill_in_order:
  fixes n :: "'w::len word"
  assumes "k \<le> unat n"
  shows "run_hpp fresh (SparseSet n) (map (\<lambda>j. Op_Insert (of_nat j) (v j)) [0..<k]) =
    \<lparr>m_ID_To_Element = map of_nat [0..<k] @ replicate (unat n - k) InvalidIndex,
      m_Element_To_ID = map of_nat [0..<k], m_Elements = map v [0..<k],
      m_CurrentLast = of_nat k\<rparr>"
  using assms
proof (induction k)
  case 0
  show ?case by (simp add: run_hpp_def SparseSet_def)
next
  case (Suc k)
  let ?s = "\<lparr>m_ID_To_Element = map of_nat [0..<k] @ replicate (unat n - k) (InvalidIndex :: 'w word),
      m_Element_To_ID = map of_nat [0..<k], m_Elements = map v [0..<k],
      m_CurrentLast = of_nat k\<rparr>"
  have k: "k < unat n" using Suc.prems by simp
  then have "k < 2 ^ LENGTH('w)" using unsigned_less [of n] by (rule less_trans)
  then have uk: "unat (of_nat k :: 'w word) = k" by (simp add: unat_of_nat)
  have IH: "run_hpp fresh (SparseSet n) (map (\<lambda>j. Op_Insert (of_nat j) (v j)) [0..<k]) = ?s"
    using Suc.IH k by simp
  have ins: "Insert ?s (of_nat k) (v k) =
    (Inr (), (dense_store ?s (of_nat k) (v k))\<lparr>m_ID_To_Element :=
        (m_ID_To_Element ?s)[unat (of_nat k :: 'w word) := m_CurrentLast ?s],
        m_CurrentLast := m_CurrentLast ?s + 1\<rparr>)"
    using k by (intro Insert_fresh) (simp_all add: uk nth_append)
  have upd: "(map of_nat [0..<k] @ replicate (unat n - k) (InvalidIndex :: 'w word))[k := of_nat k] =
      map of_nat [0..<k] @ [of_nat k] @ replicate (unat n - Suc k) InvalidIndex"
    using replicate_update_first [of "unat n - k" "map of_nat [0..<k]" InvalidIndex "of_nat k :: 'w word"] k
    by simp
  show ?case
    by (simp add: run_hpp_snoc IH ins uk dense_store_def upd)
qed

subsection \<open>The length of the dense vector\<close>

lemma count_le_support:
  fixes s :: "('w::len, 'e) sset"
  assumes c: "consistent s"
  shows "unat (m_CurrentLast s) \<le> length (m_ID_To_Element s)"
proof -
  let ?c = "unat (m_CurrentLast s)"
  let ?n = "length (m_ID_To_Element s)"
  let ?f = "\<lambda>p. unat (m_Element_To_ID s ! p)"
  have inv2: "\<And>p. p < ?c \<Longrightarrow> ?f p < ?n \<and> unat (m_ID_To_Element s ! ?f p) = p"
    using c by (simp add: consistent_def invariant2_def)
  have inj: "inj_on ?f {..<?c}"
    by (rule inj_on_inverseI [where g = "\<lambda>j. unat (m_ID_To_Element s ! j)"]) (simp add: inv2)
  have sub: "?f ` {..<?c} \<subseteq> {..<?n}" using inv2 by auto
  have "?c = card (?f ` {..<?c})" using inj by (simp add: card_image)
  also have "\<dots> \<le> card {..<?n}" using sub by (intro card_mono) auto
  finally show ?thesis by simp
qed

lemma dense_fits_Insert_move:
  fixes s :: "('w::len, 'e) sset"
  assumes c: "consistent s" and d: "dense_fits s" and ns: "i \<noteq> InvalidIndex"
  shows "dense_fits (snd (Insert_move s i v))"
proof -
  have len: "length (m_Element_To_ID s) = length (m_Elements s)"
    and le: "unat (m_CurrentLast s) \<le> length (m_Elements s)"
    and n: "length (m_ID_To_Element s) \<le> unat (InvalidIndex :: 'w word)"
    using c by (simp_all add: consistent_def sizes_ok_def)
  have ui: "unat i < unat (InvalidIndex :: 'w word)"
    using ns unat_le_Invalid [of i] by (simp add: word_unat_eq_iff)
  have grow: "length (m_Elements (dense_store s i v)) \<le> unat (InvalidIndex :: 'w word)"
    if "unat (m_CurrentLast s) < unat (InvalidIndex :: 'w word)"
    using that d le by (auto simp add: dense_store_def dense_fits_def)
  consider (present) "Exists s i = Inr True"
    | (range) "length (m_ID_To_Element s) \<le> unat i"
    | (fresh) "unat i < length (m_ID_To_Element s)" "m_ID_To_Element s ! unat i = InvalidIndex"
    by atomize_elim (auto simp add: Exists_eq)
  then show ?thesis
  proof cases
    case present
    then show ?thesis using d by (simp add: Insert_move_present)
  next
    case range
    have "unat (m_CurrentLast s) \<le> length (m_ID_To_Element s)" by (rule count_le_support [OF c])
    then have "unat (m_CurrentLast s) < unat (InvalidIndex :: 'w word)" using range ui by simp
    then show ?thesis
      using grow by (simp add: Insert_move_out_of_range [OF range len] dense_fits_def)
  next
    case fresh
    have "unat (m_CurrentLast s) < length (m_ID_To_Element s)" by (rule count_room [OF c fresh])
    then have "unat (m_CurrentLast s) < unat (InvalidIndex :: 'w word)" using n by simp
    then show ?thesis
      using grow by (simp add: Insert_move_fresh [OF fresh len] dense_fits_def)
  qed
qed

lemma dense_fits_apply_hpp:
  assumes "consistent s" and "dense_fits s" and "no_sentinel_insert op"
  shows "dense_fits (apply_hpp fresh s op)"
proof (cases op)
  case (Op_Insert i x)
  then show ?thesis using assms dense_fits_Insert_move [of s i x] by (simp add: Insert_eq_move)
next
  case (Op_Insert_move i x)
  then show ?thesis using assms dense_fits_Insert_move [of s i x] by simp
next
  case (Op_Erase i)
  have "length (m_Elements (snd (Erase s i))) = length (m_Elements s)"
    using Exists_cases [of s i] assms(1)
    by (auto simp add: Erase_absent Erase_present spec_swap_remove_def Let_def)
  then show ?thesis using Op_Erase assms(2) by (simp add: dense_fits_def)
next
  case (Op_Reserve n)
  then show ?thesis using assms(2) by (simp add: dense_fits_def Reserve_def)
next
  case Op_ShrinkToFit
  then show ?thesis
    using assms(1,2) by (simp add: dense_fits_def ShrinkToFit_consistent_eq)
qed

lemma dense_fits_run_hpp:
  assumes "consistent s" and "dense_fits s" and "list_all no_sentinel_insert ops"
  shows "dense_fits (run_hpp fresh s ops)"
  using assms unfolding run_hpp_def
proof (induction ops arbitrary: s)
  case Nil
  then show ?case by simp
next
  case (Cons op ops)
  have "consistent (apply_hpp fresh s op)" using Cons.prems(1) by (rule consistent_apply_hpp)
  moreover have "dense_fits (apply_hpp fresh s op)"
    using Cons.prems by (intro dense_fits_apply_hpp) simp_all
  ultimately show ?case using Cons.IH Cons.prems(3) by simp
qed

lemma dense_fits_constructed:
  "dense_fits (SparseSet n)" "dense_fits SparseSet_default"
  by (simp_all add: dense_fits_def SparseSet_def SparseSet_default_def)

subsection \<open>The queries\<close>

lemma Invalid8: "(InvalidIndex :: 8 word) = 255"
  by (simp add: InvalidIndex_def)

text \<open>The queries on a consistent set.\<close>

lemma safe_queries:
  fixes s :: "('w::len, 'e) sset"
  shows "Exists s i = Inr (unat i < NumSupportedElements s \<and> m_ID_To_Element s ! unat i \<noteq> InvalidIndex)"
    and "Exists s i = Inr False \<Longrightarrow> GetIfExists s i = Inr None"
    and "consistent s \<Longrightarrow> \<exists>r. GetIfExists s i = Inr r"
    and "NumSupportedElements s \<le> unat i \<Longrightarrow> Get s i = Inl OutOfRange"
    and "Exists s i = Inr False \<Longrightarrow> length (m_Elements s) \<le> unat (InvalidIndex :: 'w word) \<Longrightarrow>
      Get s i = Inl OutOfRange"
proof -
  show "Exists s i = Inr (unat i < NumSupportedElements s \<and> m_ID_To_Element s ! unat i \<noteq> InvalidIndex)"
    by (simp add: Exists_eq NumSupportedElements_def)
  show "Exists s i = Inr False \<Longrightarrow> GetIfExists s i = Inr None" by (rule GetIfExists_absent)
  show "\<exists>r. GetIfExists s i = Inr r" if "consistent s"
    using Exists_cases [of s i] GetIfExists_present [OF that, of i] GetIfExists_absent [of s i] by auto
  show "NumSupportedElements s \<le> unat i \<Longrightarrow> Get s i = Inl OutOfRange"
    by (simp add: Get_def vec_at_def NumSupportedElements_def)
  show "Get s i = Inl OutOfRange"
    if "Exists s i = Inr False" "length (m_Elements s) \<le> unat (InvalidIndex :: 'w word)"
    using that by (auto simp add: Get_def vec_at_def Exists_eq)
qed

subsection \<open>The invariants under the constructors and the mutating calls\<close>

text \<open>
  The default and the sized constructor of each variant build a consistent set, and every call that
  changes the object (Insert and Add in both overloads, Erase and Remove, Reserve and
  ExtendTo, ShrinkToFit), also one that throws, turns a consistent set into a consistent
  set; Get, GetIfExists and Exists change nothing. So after every sequence of calls on a
  constructed set, every sparse entry \<open>pos\<close> that is not the sentinel is below the count
  and the dense identifier at \<open>pos\<close> is the identifier (invariant 1), and every position
  below the count holds an identifier whose sparse entry is the position (invariant 2).
  The dense element at \<open>pos\<close> is the current value of the identifier: it is what
  GetIfExists returns, an insertion of an absent supported identifier sets it to the
  inserted element, and no call changes it for another identifier.
\<close>

lemma invariants_kept:
  fixes s :: "('w::len, 'e) sset"
  shows
    "consistent (SparseSet_default :: ('w, 'e) sset) \<and>
     consistent (SparseSet n :: ('w, 'e) sset) \<and>
     consistent (SparseSet_h_default :: ('w, 'e) sset) \<and>
     consistent (SparseSet_h n :: ('w, 'e) sset) \<and>
     (consistent s \<longrightarrow>
        invariant1 s \<and> invariant2 s \<and>
        consistent (snd (Insert s i x)) \<and> consistent (snd (Insert_move s i x)) \<and>
        consistent (snd (Add s i x)) \<and> consistent (snd (Add_move s i x)) \<and>
        consistent (snd (Erase s i)) \<and> consistent (snd (Remove s i)) \<and>
        consistent (Reserve s n) \<and> consistent (ExtendTo s n) \<and>
        consistent (ShrinkToFit fresh s) \<and> consistent (ShrinkToFit_h fresh s) \<and>
        consistent (run_hpp fresh s ops) \<and> consistent (run_h fresh s ops) \<and>
        invariant1 (run_hpp fresh s ops) \<and> invariant2 (run_hpp fresh s ops) \<and>
        invariant1 (run_h fresh s ops) \<and> invariant2 (run_h fresh s ops) \<and>
        GetIfExists s j =
          Inr (if Exists s j = Inr True
               then Some (m_Elements s ! unat (m_ID_To_Element s ! unat j)) else None) \<and>
        GetIfExists (snd (Insert s i x)) j =
          (if j = i \<and> unat i < length (m_ID_To_Element s) \<and> Exists s i = Inr False
           then Inr (Some x) else GetIfExists s j) \<and>
        GetIfExists (snd (Insert_move s i x)) j =
          (if j = i \<and> unat i < length (m_ID_To_Element s) \<and> Exists s i = Inr False
           then Inr (Some x) else GetIfExists s j) \<and>
        GetIfExists (snd (Erase s i)) j = (if j = i then Inr None else GetIfExists s j) \<and>
        GetIfExists (Reserve s n) j = GetIfExists s j \<and>
        GetIfExists (ShrinkToFit fresh s) j = GetIfExists s j)"
proof -
  have "consistent (SparseSet_default :: ('w, 'e) sset)" by (rule consistent_SparseSet_default)
  moreover have "consistent (SparseSet n :: ('w, 'e) sset)" by (rule consistent_SparseSet)
  moreover have "consistent (SparseSet_h_default :: ('w, 'e) sset)"
    by (simp add: SparseSet_h_default_eq consistent_SparseSet_default)
  moreover have "consistent (SparseSet_h n :: ('w, 'e) sset)"
    by (simp add: SparseSet_h_eq consistent_SparseSet)
  moreover have "invariant1 s \<and> invariant2 s \<and>
        consistent (snd (Insert s i x)) \<and> consistent (snd (Insert_move s i x)) \<and>
        consistent (snd (Add s i x)) \<and> consistent (snd (Add_move s i x)) \<and>
        consistent (snd (Erase s i)) \<and> consistent (snd (Remove s i)) \<and>
        consistent (Reserve s n) \<and> consistent (ExtendTo s n) \<and>
        consistent (ShrinkToFit fresh s) \<and> consistent (ShrinkToFit_h fresh s) \<and>
        consistent (run_hpp fresh s ops) \<and> consistent (run_h fresh s ops) \<and>
        invariant1 (run_hpp fresh s ops) \<and> invariant2 (run_hpp fresh s ops) \<and>
        invariant1 (run_h fresh s ops) \<and> invariant2 (run_h fresh s ops) \<and>
        GetIfExists s j =
          Inr (if Exists s j = Inr True
               then Some (m_Elements s ! unat (m_ID_To_Element s ! unat j)) else None) \<and>
        GetIfExists (snd (Insert s i x)) j =
          (if j = i \<and> unat i < length (m_ID_To_Element s) \<and> Exists s i = Inr False
           then Inr (Some x) else GetIfExists s j) \<and>
        GetIfExists (snd (Insert_move s i x)) j =
          (if j = i \<and> unat i < length (m_ID_To_Element s) \<and> Exists s i = Inr False
           then Inr (Some x) else GetIfExists s j) \<and>
        GetIfExists (snd (Erase s i)) j = (if j = i then Inr None else GetIfExists s j) \<and>
        GetIfExists (Reserve s n) j = GetIfExists s j \<and>
        GetIfExists (ShrinkToFit fresh s) j = GetIfExists s j" if c: "consistent s"
  proof -
    have i12: "invariant1 s \<and> invariant2 s" using c by (simp add: consistent_def)
    have ins: "consistent (snd (Insert s i x)) \<and> consistent (snd (Insert_move s i x)) \<and>
        consistent (snd (Add s i x)) \<and> consistent (snd (Add_move s i x))"
      using c by (simp add: Add_eq Add_move_eq consistent_Insert consistent_Insert_move)
    have era: "consistent (snd (Erase s i)) \<and> consistent (snd (Remove s i))"
      using c by (simp add: Remove_eq consistent_Erase)
    have res: "consistent (Reserve s n) \<and> consistent (ExtendTo s n) \<and>
        consistent (ShrinkToFit fresh s) \<and> consistent (ShrinkToFit_h fresh s)"
      using c by (simp add: ExtendTo_eq ShrinkToFit_h_eq consistent_Reserve consistent_ShrinkToFit)
    have run: "consistent (run_hpp fresh s ops) \<and> consistent (run_h fresh s ops)"
      using c by (simp add: run_h_eq consistent_run_hpp)
    then have run12: "invariant1 (run_hpp fresh s ops) \<and> invariant2 (run_hpp fresh s ops) \<and>
        invariant1 (run_h fresh s ops) \<and> invariant2 (run_h fresh s ops)"
      by (simp add: consistent_def)
    have g: "GetIfExists s j =
          Inr (if Exists s j = Inr True
               then Some (m_Elements s ! unat (m_ID_To_Element s ! unat j)) else None)"
      using Exists_cases [of s j] by (auto simp add: GetIfExists_present [OF c] GetIfExists_absent)
    have gi: "GetIfExists (snd (Insert s i x)) j =
          (if j = i \<and> unat i < length (m_ID_To_Element s) \<and> Exists s i = Inr False
           then Inr (Some x) else GetIfExists s j)"
      using GetIfExists_Insert_move [OF c, of i x j] by (simp add: Insert_eq_move)
    note gm = GetIfExists_Insert_move [OF c, of i x j]
    note ge = GetIfExists_Erase [OF c, of i j]
    note gr = GetIfExists_Reserve [of s n j]
    note gs = GetIfExists_ShrinkToFit [OF c, of fresh j]
    from i12 ins era res run run12 g gi gm ge gr gs show ?thesis by blast
  qed
  ultimately show ?thesis by blast
qed


lemma invariants_kept_instance:
  "consistent (SparseSet 4 :: (32, nat) sset) \<and>
   consistent (snd (Erase (snd (Insert (SparseSet 4 :: (32, nat) sset) 1 10)) 1)) \<and>
   consistent (run_hpp 0 (SparseSet 4 :: (32, nat) sset)
     [Op_Insert 1 10, Op_Insert 7 70, Op_Insert_move 2 20, Op_Erase 1, Op_ShrinkToFit, Op_Reserve 9]) \<and>
   GetIfExists (snd (Insert (SparseSet 4 :: (32, nat) sset) 1 10)) 1 = Inr (Some 10)"
proof -
  note t = invariants_kept [where 'w = 32 and 'e = nat]
  have c0: "consistent (SparseSet 4 :: (32, nat) sset)" using t [of 4] by blast
  have c1: "consistent (snd (Insert (SparseSet 4 :: (32, nat) sset) 1 10))"
    using t [of 4 "SparseSet 4" 1 10] c0 by blast
  have c2: "consistent (snd (Erase (snd (Insert (SparseSet 4 :: (32, nat) sset) 1 10)) 1))"
    using t [of 4 "snd (Insert (SparseSet 4) 1 10)" 1] c1 by blast
  have c3: "consistent (run_hpp 0 (SparseSet 4 :: (32, nat) sset)
     [Op_Insert 1 10, Op_Insert 7 70, Op_Insert_move 2 20, Op_Erase 1, Op_ShrinkToFit, Op_Reserve 9])"
    using t [of 4 "SparseSet 4" _ _ 0] c0 by blast
  have c4: "GetIfExists (snd (Insert (SparseSet 4 :: (32, nat) sset) 1 10)) 1 = Inr (Some 10)"
    using t [of 4 "SparseSet 4" 1 10 _ _ 1] c0
    by (simp add: Exists_eq SparseSet_def replicate4 Invalid32)
  from c0 c2 c3 c4 show ?thesis by blast
qed

section \<open>C1: swap-and-pop removal\<close>

text \<open>
  C1. On a consistent set, for an identifier that exists at dense position \<open>removedPos\<close>,
  with \<open>lastPos = count - 1\<close>: \<open>Erase\<close> returns true, \<open>Remove\<close> returns, and both leave
  the object that the four steps of the specification describe (\<open>spec_swap_remove\<close>).
  When \<open>removedPos \<noteq> lastPos\<close> the element at \<open>lastPos\<close> is stored at \<open>removedPos\<close>, the
  sparse entry of the moved identifier becomes \<open>removedPos\<close> and the dense identifier at
  \<open>removedPos\<close> becomes the moved identifier; when \<open>removedPos = lastPos\<close> the dense arrays
  are left as they are. The sparse entry of the erased identifier becomes the sentinel and
  the count goes down by one, without wrapping. For the identifiers 1, 2, 3 inserted in
  that order into a set for four identifiers, erasing 1 leaves 1 absent, 2 and 3 present,
  the count 2 and the element of 3 at dense position 0, in both variants.
\<close>

theorem Erase_swap_and_pop:
  fixes s :: "('w::len, 'e) sset" and v1 v2 v3 :: 'e
  assumes c: "consistent s" and e: "Exists s ident = Inr True"
  shows
    "(let removedPos = m_ID_To_Element s ! unat ident;
          lastPos = m_CurrentLast s - 1;
          movedId = m_Element_To_ID s ! unat lastPos;
          t = snd (Erase s ident)
      in Erase s ident = (Inr True, spec_swap_remove s ident) \<and>
         Remove s ident = (Inr (), spec_swap_remove s ident) \<and>
         unat removedPos < unat (m_CurrentLast s) \<and>
         unat lastPos = unat (m_CurrentLast s) - 1 \<and>
         (removedPos \<noteq> lastPos \<longrightarrow>
            m_Elements t = (m_Elements s)[unat removedPos := m_Elements s ! unat lastPos] \<and>
            m_Elements t ! unat removedPos = m_Elements s ! unat lastPos \<and>
            m_ID_To_Element t ! unat movedId = removedPos \<and>
            m_Element_To_ID t = (m_Element_To_ID s)[unat removedPos := movedId] \<and>
            m_Element_To_ID t ! unat removedPos = movedId) \<and>
         (removedPos = lastPos \<longrightarrow>
            m_Elements t = m_Elements s \<and> m_Element_To_ID t = m_Element_To_ID s \<and>
            m_ID_To_Element t = (m_ID_To_Element s)[unat ident := InvalidIndex]) \<and>
         m_ID_To_Element t ! unat ident = InvalidIndex \<and>
         m_CurrentLast t = m_CurrentLast s - 1 \<and>
         unat (m_CurrentLast t) = unat (m_CurrentLast s) - 1) \<and>
     (let s3 = snd (Insert (snd (Insert (snd (Insert (SparseSet 4 :: (32, 'e) sset) 1 v1)) 2 v2)) 3 v3);
          r = Erase s3 1; t = snd r
      in fst r = Inr True \<and> Exists t 1 = Inr False \<and> Exists t 2 = Inr True \<and>
         Exists t 3 = Inr True \<and> m_CurrentLast t = 2 \<and> m_ID_To_Element t ! 3 = 0 \<and>
         m_Elements t ! 0 = v3 \<and> Get t 3 = Inr v3) \<and>
     (let s3 = snd (Add (snd (Add (snd (Add (SparseSet_h 4 :: (32, 'e) sset) 1 v1)) 2 v2)) 3 v3);
          r = Remove s3 1; t = snd r
      in fst r = Inr () \<and> Exists_h t 1 = Inr False \<and> Exists_h t 2 = Inr True \<and>
         Exists_h t 3 = Inr True \<and> m_CurrentLast t = 2 \<and> m_ID_To_Element t ! 3 = 0 \<and>
         m_Elements t ! 0 = v3 \<and> Get_h t 3 = Inr v3)"
proof -
  note f = present_facts [OF c e]
  let ?t = "spec_swap_remove s ident"
  let ?rp = "m_ID_To_Element s ! unat ident" and ?lp = "m_CurrentLast s - 1"
  let ?m = "m_Element_To_ID s ! unat ?lp"
  have E: "Erase s ident = (Inr True, ?t)" by (rule Erase_present [OF c e])
  then have R: "Remove s ident = (Inr (), ?t)" by (simp add: Remove_eq)
  have rpl: "unat ?rp < length (m_Elements s)" using f(3,6,7) by simp
  have swap: "m_Elements ?t = (m_Elements s)[unat ?rp := m_Elements s ! unat ?lp] \<and>
      m_Elements ?t ! unat ?rp = m_Elements s ! unat ?lp \<and>
      m_ID_To_Element ?t ! unat ?m = ?rp \<and>
      m_Element_To_ID ?t = (m_Element_To_ID s)[unat ?rp := ?m] \<and>
      m_Element_To_ID ?t ! unat ?rp = ?m" if ne: "?rp \<noteq> ?lp"
  proof -
    have "unat ?rp \<noteq> unat ?lp" using ne by (simp add: word_unat_eq_iff)
    then have "unat ?m \<noteq> unat ident" using f(4,10) by auto
    then show ?thesis using ne rpl f(8,9) by (simp add: spec_swap_remove_def Let_def)
  qed
  have noswap: "m_Elements ?t = m_Elements s \<and> m_Element_To_ID ?t = m_Element_To_ID s \<and>
      m_ID_To_Element ?t = (m_ID_To_Element s)[unat ident := InvalidIndex]" if "?rp = ?lp"
    using that by (simp add: spec_swap_remove_def)
  have rest: "m_ID_To_Element ?t ! unat ident = InvalidIndex \<and>
      m_CurrentLast ?t = m_CurrentLast s - 1 \<and>
      unat (m_CurrentLast ?t) = unat (m_CurrentLast s) - 1"
    using f(1,6,9) by (simp add: spec_swap_remove_def Let_def)
  have general: "(let removedPos = m_ID_To_Element s ! unat ident;
          lastPos = m_CurrentLast s - 1;
          movedId = m_Element_To_ID s ! unat lastPos;
          t = snd (Erase s ident)
      in Erase s ident = (Inr True, spec_swap_remove s ident) \<and>
         Remove s ident = (Inr (), spec_swap_remove s ident) \<and>
         unat removedPos < unat (m_CurrentLast s) \<and>
         unat lastPos = unat (m_CurrentLast s) - 1 \<and>
         (removedPos \<noteq> lastPos \<longrightarrow>
            m_Elements t = (m_Elements s)[unat removedPos := m_Elements s ! unat lastPos] \<and>
            m_Elements t ! unat removedPos = m_Elements s ! unat lastPos \<and>
            m_ID_To_Element t ! unat movedId = removedPos \<and>
            m_Element_To_ID t = (m_Element_To_ID s)[unat removedPos := movedId] \<and>
            m_Element_To_ID t ! unat removedPos = movedId) \<and>
         (removedPos = lastPos \<longrightarrow>
            m_Elements t = m_Elements s \<and> m_Element_To_ID t = m_Element_To_ID s \<and>
            m_ID_To_Element t = (m_ID_To_Element s)[unat ident := InvalidIndex]) \<and>
         m_ID_To_Element t ! unat ident = InvalidIndex \<and>
         m_CurrentLast t = m_CurrentLast s - 1 \<and>
         unat (m_CurrentLast t) = unat (m_CurrentLast s) - 1)"
    unfolding Let_def E R snd_conv
    using swap noswap rest f(3,6) by blast
  have hpp: "(let s3 = snd (Insert (snd (Insert (snd (Insert (SparseSet 4 :: (32, 'e) sset) 1 v1)) 2 v2)) 3 v3);
          r = Erase s3 1; t = snd r
      in fst r = Inr True \<and> Exists t 1 = Inr False \<and> Exists t 2 = Inr True \<and>
         Exists t 3 = Inr True \<and> m_CurrentLast t = 2 \<and> m_ID_To_Element t ! 3 = 0 \<and>
         m_Elements t ! 0 = v3 \<and> Get t 3 = Inr v3)"
    unfolding three_inserted three_inserted_erase Let_def
    by (simp add: Exists_eq Get_def vec_at_def Invalid32)
  have h: "(let s3 = snd (Add (snd (Add (snd (Add (SparseSet_h 4 :: (32, 'e) sset) 1 v1)) 2 v2)) 3 v3);
          r = Remove s3 1; t = snd r
      in fst r = Inr () \<and> Exists_h t 1 = Inr False \<and> Exists_h t 2 = Inr True \<and>
         Exists_h t 3 = Inr True \<and> m_CurrentLast t = 2 \<and> m_ID_To_Element t ! 3 = 0 \<and>
         m_Elements t ! 0 = v3 \<and> Get_h t 3 = Inr v3)"
    unfolding Add_eq SparseSet_h_eq Remove_eq Exists_h_eq Get_h_eq three_inserted three_inserted_erase Let_def
    by (simp add: Exists_eq Get_def vec_at_def Invalid32)
  from general hpp h show ?thesis by blast
qed

theorem Erase_swap_and_pop_witness:
  "consistent (snd (Insert (snd (Insert (snd (Insert (SparseSet 4 :: (32, nat) sset) 1 10)) 2 20)) 3 30)) \<and>
   Exists (snd (Insert (snd (Insert (snd (Insert (SparseSet 4 :: (32, nat) sset) 1 10)) 2 20)) 3 30)) 1 = Inr True \<and>
   m_Elements (snd (Erase (snd (Insert (snd (Insert (snd (Insert (SparseSet 4 :: (32, nat) sset) 1 10)) 2 20)) 3 30)) 1))
     = [30, 20, 30] \<and>
   m_ID_To_Element (snd (Erase (snd (Insert (snd (Insert (snd (Insert (SparseSet 4 :: (32, nat) sset) 1 10)) 2 20)) 3 30)) 1))
     = [InvalidIndex, InvalidIndex, 1, 0] \<and>
   m_Element_To_ID (snd (Erase (snd (Insert (snd (Insert (snd (Insert (SparseSet 4 :: (32, nat) sset) 1 10)) 2 20)) 3 30)) 1))
     = [3, 2, 3] \<and>
   m_CurrentLast (snd (Erase (snd (Insert (snd (Insert (snd (Insert (SparseSet 4 :: (32, nat) sset) 1 10)) 2 20)) 3 30)) 1))
     = 2"
proof -
  let ?s = "snd (Insert (snd (Insert (snd (Insert (SparseSet 4 :: (32, nat) sset) 1 10)) 2 20)) 3 30)"
  have c: "consistent ?s"
    by (intro consistent_Insert consistent_SparseSet)
  have e: "Exists ?s 1 = Inr True"
    unfolding three_inserted by (simp add: Exists_eq Invalid32)
  from Erase_swap_and_pop [OF c e, of 0 0 0] c e show ?thesis
    unfolding three_inserted by (simp add: Let_def Invalid32 spec_swap_remove_def)
qed

section \<open>C2: the consistency invariants\<close>

text \<open>
  C2. The invariants hold after the default and the sized constructor and are kept by every
  mutating call (\<open>invariants_kept\<close>), but not after every public operation: the copy
  constructor of the \<^verbatim>\<open>.h\<close> variant breaks invariant 1. A set for four identifiers receives
  the identifier 1 with the element 10 and is consistent. Its copy has the same sparse
  table, where the entry of 1 is the position 0 and not the sentinel, and the count 0: the
  position is not below the count.
\<close>

theorem copy_breaks_invariant1:
  "(let a = snd (Add (SparseSet_h 4 :: (32, nat) sset) 1 10);
        b = SparseSet_h_copy a
    in consistent a \<and> m_CurrentLast a = 1 \<and>
       Exists_h b 1 = Inr True \<and> m_ID_To_Element b ! 1 = 0 \<and> m_CurrentLast b = 0 \<and>
       \<not> unat (m_ID_To_Element b ! 1) < unat (m_CurrentLast b) \<and>
       \<not> invariant1 b)"
proof -
  let ?a = "snd (Add (SparseSet_h 4 :: (32, nat) sset) 1 10)"
  let ?b = "\<lparr>m_ID_To_Element = [InvalidIndex, 0, InvalidIndex, InvalidIndex :: 32 word],
       m_Element_To_ID = [1], m_Elements = [10 :: nat], m_CurrentLast = 0\<rparr>"
  have a: "?a = \<lparr>m_ID_To_Element = [InvalidIndex, 0, InvalidIndex, InvalidIndex],
       m_Element_To_ID = [1], m_Elements = [10], m_CurrentLast = 1\<rparr>"
    by (simp add: Add_eq SparseSet_h_eq Insert_fresh SparseSet_def dense_store_def replicate4 Invalid32)
  have c: "consistent ?a"
    unfolding Add_eq SparseSet_h_eq by (intro consistent_Insert consistent_SparseSet)
  have b: "SparseSet_h_copy ?a = ?b"
    unfolding a by (simp add: SparseSet_h_copy_def SparseSet_h_default_def)
  have e: "Exists_h ?b 1 = Inr True" by (simp add: Exists_h_eq Exists_eq Invalid32)
  have n: "\<not> invariant1 ?b"
  proof
    assume "invariant1 ?b"
    then have "m_ID_To_Element ?b ! 1 \<noteq> InvalidIndex \<longrightarrow>
        unat (m_ID_To_Element ?b ! 1) < unat (m_CurrentLast ?b)"
      unfolding invariant1_def by (elim allE [of _ 1]) simp
    then show False by (simp add: Invalid32)
  qed
  have m: "m_CurrentLast ?a = 1" unfolding a by simp
  show ?thesis unfolding Let_def b using c m e n by simp
qed

theorem copy_breaks_invariant1_witness:
  "\<not> consistent (SparseSet_h_copy (snd (Add (SparseSet_h 4 :: (32, nat) sset) 1 10)))"
  using copy_breaks_invariant1 by (simp add: Let_def consistent_def)

section \<open>C3: inserting an identifier that exists\<close>

text \<open>
  C3. When the identifier exists, each of the four insertions (\<open>Insert\<close> in both overloads,
  \<open>Add\<close> in both overloads) returns with the object unchanged, so the stored element, the
  count and every other entry stay as they are; the overload that returns a \<^verbatim>\<open>bool\<close>
  returns false. On a consistent set, after an absent supported identifier is inserted
  with \<open>v1\<close> and then again with \<open>v2\<close>, the second call changes nothing and \<open>Get\<close> returns
  \<open>v1\<close>.
\<close>

theorem Insert_existing_is_noop:
  fixes s :: "('w::len, 'e) sset"
  shows
    "(Exists s i = Inr True \<longrightarrow>
        Insert s i x = (Inr (), s) \<and> Insert_move s i x = (Inr False, s) \<and>
        Add s i x = (Inr (), s) \<and> Add_move s i x = (Inr (), s)) \<and>
     (consistent s \<and> unat i < NumSupportedElements s \<and> Exists s i = Inr False \<longrightarrow>
        Exists (snd (Insert s i v1)) i = Inr True \<and>
        Insert (snd (Insert s i v1)) i v2 = (Inr (), snd (Insert s i v1)) \<and>
        Get (snd (Insert (snd (Insert s i v1)) i v2)) i = Inr v1 \<and>
        Insert_move (snd (Insert_move s i v1)) i v2 = (Inr False, snd (Insert_move s i v1)) \<and>
        Get (snd (Insert_move (snd (Insert_move s i v1)) i v2)) i = Inr v1 \<and>
        Add (snd (Add s i v1)) i v2 = (Inr (), snd (Add s i v1)) \<and>
        Get_h (snd (Add (snd (Add s i v1)) i v2)) i = Inr v1 \<and>
        Add_move (snd (Add_move s i v1)) i v2 = (Inr (), snd (Add_move s i v1)) \<and>
        Get_h (snd (Add_move (snd (Add_move s i v1)) i v2)) i = Inr v1)"
proof -
  have noop: "Insert s' i x = (Inr (), s') \<and> Insert_move s' i x = (Inr False, s') \<and>
      Add s' i x = (Inr (), s') \<and> Add_move s' i x = (Inr (), s')"
    if "Exists s' i = Inr True" for s' :: "('w, 'e) sset" and x
    using that by (simp add: Add_eq Add_move_eq Insert_eq_move Insert_move_present)
  have twice: "Exists (snd (Insert s i v1)) i = Inr True \<and>
        Insert (snd (Insert s i v1)) i v2 = (Inr (), snd (Insert s i v1)) \<and>
        Get (snd (Insert (snd (Insert s i v1)) i v2)) i = Inr v1 \<and>
        Insert_move (snd (Insert_move s i v1)) i v2 = (Inr False, snd (Insert_move s i v1)) \<and>
        Get (snd (Insert_move (snd (Insert_move s i v1)) i v2)) i = Inr v1 \<and>
        Add (snd (Add s i v1)) i v2 = (Inr (), snd (Add s i v1)) \<and>
        Get_h (snd (Add (snd (Add s i v1)) i v2)) i = Inr v1 \<and>
        Add_move (snd (Add_move s i v1)) i v2 = (Inr (), snd (Add_move s i v1)) \<and>
        Get_h (snd (Add_move (snd (Add_move s i v1)) i v2)) i = Inr v1"
    if c: "consistent s" and r: "unat i < NumSupportedElements s" and a: "Exists s i = Inr False"
  proof -
    let ?t = "snd (Insert_move s i v1)"
    have ti: "snd (Insert s i v1) = ?t" by (simp add: Insert_eq_move)
    have ct: "consistent ?t" using c by (rule consistent_Insert_move)
    have g: "GetIfExists ?t i = Inr (Some v1)"
      using GetIfExists_Insert_move [OF c, of i v1 i] r a by (simp add: NumSupportedElements_def)
    have et: "Exists ?t i = Inr True"
      using g Exists_cases [of ?t i] by (auto simp add: GetIfExists_absent)
    have "GetIfExists ?t i = Inr (Some (m_Elements ?t ! unat (m_ID_To_Element ?t ! unat i)))"
      by (rule GetIfExists_present [OF ct et])
    then have "Get ?t i = Inr v1" using g by (simp add: Get_present [OF ct et])
    then show ?thesis
      using noop [OF et, of v2] et by (simp add: ti Add_eq Add_move_eq Get_h_eq)
  qed
  from noop [of s x] twice show ?thesis by blast
qed

theorem Insert_existing_is_noop_witness:
  "Exists (snd (Insert (SparseSet 4 :: (32, nat) sset) 1 10)) 1 = Inr True \<and>
   Insert (snd (Insert (SparseSet 4 :: (32, nat) sset) 1 10)) 1 20 =
     (Inr (), snd (Insert (SparseSet 4 :: (32, nat) sset) 1 10)) \<and>
   consistent (SparseSet 4 :: (32, nat) sset) \<and>
   unat (1 :: 32 word) < NumSupportedElements (SparseSet 4 :: (32, nat) sset) \<and>
   Exists (SparseSet 4 :: (32, nat) sset) 1 = Inr False \<and>
   Get (snd (Insert (snd (Insert (SparseSet 4 :: (32, nat) sset) 1 10)) 1 20)) 1 = Inr 10"
proof -
  have c: "consistent (SparseSet 4 :: (32, nat) sset)" by (rule consistent_SparseSet)
  have r: "unat (1 :: 32 word) < NumSupportedElements (SparseSet 4 :: (32, nat) sset)"
    by (simp add: NumSupportedElements_def SparseSet_def)
  have a: "Exists (SparseSet 4 :: (32, nat) sset) 1 = Inr False"
    by (simp add: Exists_eq SparseSet_def replicate4)
  from Insert_existing_is_noop [of "SparseSet 4 :: (32, nat) sset" 1 _ 10 20] c r a
  have 1: "Exists (snd (Insert (SparseSet 4 :: (32, nat) sset) 1 10)) 1 = Inr True"
    and 2: "Get (snd (Insert (snd (Insert (SparseSet 4 :: (32, nat) sset) 1 10)) 1 20)) 1 = Inr 10"
    by blast+
  from Insert_existing_is_noop [of "snd (Insert (SparseSet 4 :: (32, nat) sset) 1 10)" 1 20] 1
  have 3: "Insert (snd (Insert (SparseSet 4 :: (32, nat) sset) 1 10)) 1 20 =
     (Inr (), snd (Insert (SparseSet 4 :: (32, nat) sset) 1 10))"
    by blast
  from 1 2 3 c r a show ?thesis by blast
qed

section \<open>C4: erasing an identifier that does not exist\<close>

text \<open>
  C4, as amended. When the identifier does not exist (out of range, or its sparse entry is
  the sentinel), \<open>Erase\<close> and \<open>Remove\<close> return with the object unchanged, so the count,
  \<open>Exists\<close> for every identifier and all stored elements are as before; \<open>Erase\<close> returns
  false. On a consistent set, for an identifier that exists, \<open>Erase\<close> returns true.
  \<open>Remove\<close> is \<^verbatim>\<open>void\<close>: it returns the same, no value, in both cases.
\<close>

theorem Erase_absent_is_noop:
  fixes s :: "('w::len, 'e) sset"
  shows
    "(Exists s i = Inr False \<longrightarrow> Erase s i = (Inr False, s) \<and> Remove s i = (Inr (), s)) \<and>
     (consistent s \<and> Exists s i = Inr True \<longrightarrow>
        fst (Erase s i) = Inr True \<and> fst (Remove s i) = Inr () \<and>
        snd (Remove s i) = snd (Erase s i))"
  by (simp add: Erase_absent Remove_eq Erase_present)

theorem Erase_absent_is_noop_witness:
  "Exists (SparseSet 4 :: (32, nat) sset) 1 = Inr False \<and>
   Erase (SparseSet 4 :: (32, nat) sset) 1 = (Inr False, SparseSet 4) \<and>
   Remove (SparseSet 4 :: (32, nat) sset) 1 = (Inr (), SparseSet 4) \<and>
   consistent (snd (Insert (SparseSet 4 :: (32, nat) sset) 1 10)) \<and>
   Exists (snd (Insert (SparseSet 4 :: (32, nat) sset) 1 10)) 1 = Inr True \<and>
   fst (Erase (snd (Insert (SparseSet 4 :: (32, nat) sset) 1 10)) 1) = Inr True"
proof -
  have a: "Exists (SparseSet 4 :: (32, nat) sset) 1 = Inr False"
    by (simp add: Exists_eq SparseSet_def replicate4)
  have c: "consistent (snd (Insert (SparseSet 4 :: (32, nat) sset) 1 10))"
    by (intro consistent_Insert consistent_SparseSet)
  have e: "Exists (snd (Insert (SparseSet 4 :: (32, nat) sset) 1 10)) 1 = Inr True"
    by (simp add: Insert_fresh SparseSet_def replicate4 Exists_eq dense_store_def Invalid32)
  from Erase_absent_is_noop [of "SparseSet 4 :: (32, nat) sset" 1] a
  have 1: "Erase (SparseSet 4 :: (32, nat) sset) 1 = (Inr False, SparseSet 4)"
    and 2: "Remove (SparseSet 4 :: (32, nat) sset) 1 = (Inr (), SparseSet 4)"
    by blast+
  from Erase_absent_is_noop [of "snd (Insert (SparseSet 4 :: (32, nat) sset) 1 10)" 1] c e
  have 3: "fst (Erase (snd (Insert (SparseSet 4 :: (32, nat) sset) 1 10)) 1) = Inr True"
    by blast
  from a c e 1 2 3 show ?thesis by blast
qed

text \<open>
  The claim as stated fails for \<open>Remove\<close>: on a set where 1 is absent and on a set where 1
  exists, it returns the same.
\<close>

theorem Remove_returns_no_indicator:
  "Exists_h (SparseSet_h 4 :: (32, nat) sset) 1 = Inr False \<and>
   Exists_h (snd (Add (SparseSet_h 4 :: (32, nat) sset) 1 10)) 1 = Inr True \<and>
   fst (Remove (SparseSet_h 4 :: (32, nat) sset) 1) =
     fst (Remove (snd (Add (SparseSet_h 4 :: (32, nat) sset) 1 10)) 1)"
proof -
  have a: "Exists (SparseSet 4 :: (32, nat) sset) 1 = Inr False"
    by (simp add: Exists_eq SparseSet_def replicate4)
  have c: "consistent (snd (Insert (SparseSet 4 :: (32, nat) sset) 1 10))"
    by (intro consistent_Insert consistent_SparseSet)
  have e: "Exists (snd (Insert (SparseSet 4 :: (32, nat) sset) 1 10)) 1 = Inr True"
    by (simp add: Insert_fresh SparseSet_def replicate4 Exists_eq dense_store_def Invalid32)
  show ?thesis
    using a e by (simp add: Exists_h_eq SparseSet_h_eq Add_eq Remove_eq Erase_absent Erase_present [OF c e])
qed

section \<open>C5: the queries\<close>

text \<open>
  C5. \<open>Exists\<close> never throws: it answers false for an identifier that is out of range, and
  for one in range it answers true exactly when the sparse entry is not the sentinel.
  \<open>GetIfExists\<close> answers empty whenever \<open>Exists\<close> answers false, and never throws on a
  consistent set. Both are reads: they return no object. \<open>Get\<close> throws the out-of-range
  error for every identifier that is out of range, and for every identifier that does not
  exist when the set is consistent and the dense vector is not longer than the sentinel.
  That is so for every set reached from a constructor by calls that never insert the
  sentinel, the value that the specification reserves: there \<open>GetIfExists\<close> never throws
  and \<open>Get\<close> throws for every identifier that does not exist, in both variants.
\<close>

theorem queries_are_safe_and_Get_throws:
  fixes s :: "('w::len, 'e) sset"
  shows
    "Exists s i = Inr (unat i < NumSupportedElements s \<and> m_ID_To_Element s ! unat i \<noteq> InvalidIndex) \<and>
     Exists_h s i = Exists s i \<and> GetIfExists_h s i = GetIfExists s i \<and> Get_h s i = Get s i \<and>
     (NumSupportedElements s \<le> unat i \<longrightarrow>
        Exists s i = Inr False \<and> GetIfExists s i = Inr None \<and> Get s i = Inl OutOfRange) \<and>
     (Exists s i = Inr False \<longrightarrow> GetIfExists s i = Inr None) \<and>
     (consistent s \<longrightarrow> (\<exists>r. GetIfExists s i = Inr r)) \<and>
     (consistent s \<and> dense_fits s \<and> Exists s i = Inr False \<longrightarrow> Get s i = Inl OutOfRange) \<and>
     (list_all no_sentinel_insert ops \<longrightarrow>
        (\<exists>r. GetIfExists (run_hpp fresh (SparseSet n :: ('w, 'e) sset) ops) i = Inr r) \<and>
        (Exists (run_hpp fresh (SparseSet n :: ('w, 'e) sset) ops) i = Inr False \<longrightarrow>
           Get (run_hpp fresh (SparseSet n :: ('w, 'e) sset) ops) i = Inl OutOfRange) \<and>
        (\<exists>r. GetIfExists (run_hpp fresh (SparseSet_default :: ('w, 'e) sset) ops) i = Inr r) \<and>
        (Exists (run_hpp fresh (SparseSet_default :: ('w, 'e) sset) ops) i = Inr False \<longrightarrow>
           Get (run_hpp fresh (SparseSet_default :: ('w, 'e) sset) ops) i = Inl OutOfRange) \<and>
        (\<exists>r. GetIfExists_h (run_h fresh (SparseSet_h n :: ('w, 'e) sset) ops) i = Inr r) \<and>
        (Exists_h (run_h fresh (SparseSet_h n :: ('w, 'e) sset) ops) i = Inr False \<longrightarrow>
           Get_h (run_h fresh (SparseSet_h n :: ('w, 'e) sset) ops) i = Inl OutOfRange) \<and>
        (\<exists>r. GetIfExists_h (run_h fresh (SparseSet_h_default :: ('w, 'e) sset) ops) i = Inr r) \<and>
        (Exists_h (run_h fresh (SparseSet_h_default :: ('w, 'e) sset) ops) i = Inr False \<longrightarrow>
           Get_h (run_h fresh (SparseSet_h_default :: ('w, 'e) sset) ops) i = Inl OutOfRange))"
proof -
  have ex: "Exists t i = Inr (unat i < NumSupportedElements t \<and> m_ID_To_Element t ! unat i \<noteq> InvalidIndex)"
    for t :: "('w, 'e) sset"
    by (simp add: Exists_eq NumSupportedElements_def)
  have h: "Exists_h s i = Exists s i \<and> GetIfExists_h s i = GetIfExists s i \<and> Get_h s i = Get s i"
    by (simp add: Exists_h_eq GetIfExists_h_eq Get_h_eq)
  have range: "Exists s i = Inr False \<and> GetIfExists s i = Inr None \<and> Get s i = Inl OutOfRange"
    if "NumSupportedElements s \<le> unat i"
    using that by (simp add: safe_queries(4) ex GetIfExists_absent)
  have absent: "GetIfExists s i = Inr None" if "Exists s i = Inr False"
    using that by (rule GetIfExists_absent)
  have never: "\<exists>r. GetIfExists t i = Inr r" if "consistent t" for t :: "('w, 'e) sset"
    using that by (rule safe_queries(3))
  have get: "Get t i = Inl OutOfRange"
    if "consistent t" "dense_fits t" "Exists t i = Inr False" for t :: "('w, 'e) sset"
    using that safe_queries(5) [of t i] by (simp add: dense_fits_def)
  have reached: "(\<exists>r. GetIfExists (run_hpp fresh t ops) i = Inr r) \<and>
        (Exists (run_hpp fresh t ops) i = Inr False \<longrightarrow> Get (run_hpp fresh t ops) i = Inl OutOfRange)"
    if "consistent t" "dense_fits t" "list_all no_sentinel_insert ops" for t :: "('w, 'e) sset"
  proof -
    have c: "consistent (run_hpp fresh t ops)" using that(1) by (rule consistent_run_hpp)
    have d: "dense_fits (run_hpp fresh t ops)" using that by (rule dense_fits_run_hpp)
    show ?thesis using never [OF c] get [OF c d] by blast
  qed
  have runs: "(\<exists>r. GetIfExists (run_hpp fresh (SparseSet n :: ('w, 'e) sset) ops) i = Inr r) \<and>
        (Exists (run_hpp fresh (SparseSet n :: ('w, 'e) sset) ops) i = Inr False \<longrightarrow>
           Get (run_hpp fresh (SparseSet n :: ('w, 'e) sset) ops) i = Inl OutOfRange) \<and>
        (\<exists>r. GetIfExists (run_hpp fresh (SparseSet_default :: ('w, 'e) sset) ops) i = Inr r) \<and>
        (Exists (run_hpp fresh (SparseSet_default :: ('w, 'e) sset) ops) i = Inr False \<longrightarrow>
           Get (run_hpp fresh (SparseSet_default :: ('w, 'e) sset) ops) i = Inl OutOfRange) \<and>
        (\<exists>r. GetIfExists_h (run_h fresh (SparseSet_h n :: ('w, 'e) sset) ops) i = Inr r) \<and>
        (Exists_h (run_h fresh (SparseSet_h n :: ('w, 'e) sset) ops) i = Inr False \<longrightarrow>
           Get_h (run_h fresh (SparseSet_h n :: ('w, 'e) sset) ops) i = Inl OutOfRange) \<and>
        (\<exists>r. GetIfExists_h (run_h fresh (SparseSet_h_default :: ('w, 'e) sset) ops) i = Inr r) \<and>
        (Exists_h (run_h fresh (SparseSet_h_default :: ('w, 'e) sset) ops) i = Inr False \<longrightarrow>
           Get_h (run_h fresh (SparseSet_h_default :: ('w, 'e) sset) ops) i = Inl OutOfRange)"
    if l: "list_all no_sentinel_insert ops"
    unfolding run_h_eq SparseSet_h_eq SparseSet_h_default_eq Exists_h_eq GetIfExists_h_eq Get_h_eq
    using reached [OF consistent_SparseSet dense_fits_constructed(1) l, of n]
      reached [OF consistent_SparseSet_default dense_fits_constructed(2) l]
    by blast
  from ex [of s] h range absent never [of s] get [of s] runs show ?thesis by blast
qed

theorem queries_are_safe_and_Get_throws_witness:
  "list_all no_sentinel_insert [Op_Insert (1 :: 32 word) (10 :: nat)] \<and>
   Exists (run_hpp 0 (SparseSet 4 :: (32, nat) sset) [Op_Insert 1 10]) 2 = Inr False \<and>
   GetIfExists (run_hpp 0 (SparseSet 4 :: (32, nat) sset) [Op_Insert 1 10]) 2 = Inr None \<and>
   Get (run_hpp 0 (SparseSet 4 :: (32, nat) sset) [Op_Insert 1 10]) 2 = Inl OutOfRange \<and>
   Get (run_hpp 0 (SparseSet 4 :: (32, nat) sset) [Op_Insert 1 10]) 1 = Inr 10"
proof -
  let ?t = "run_hpp 0 (SparseSet 4 :: (32, nat) sset) [Op_Insert 1 10]"
  have t: "?t = \<lparr>m_ID_To_Element = [InvalidIndex, 0, InvalidIndex, InvalidIndex], m_Element_To_ID = [1],
        m_Elements = [10], m_CurrentLast = 1\<rparr>"
    by (simp add: run_hpp_def Insert_fresh SparseSet_def dense_store_def replicate4 Invalid32)
  have l: "list_all no_sentinel_insert [Op_Insert (1 :: 32 word) (10 :: nat)]"
    by (simp add: Invalid32)
  have a: "Exists ?t 2 = Inr False" unfolding t by (simp add: Exists_eq)
  have g1: "Get ?t 1 = Inr 10" unfolding t by (simp add: Get_def vec_at_def)
  note q = queries_are_safe_and_Get_throws [of ?t 2 "[Op_Insert 1 10]" 0 4]
  have g: "Get ?t 2 = Inl OutOfRange" using q l a by blast
  have n: "GetIfExists ?t 2 = Inr None" using q a by blast
  from l a n g g1 show ?thesis by blast
qed

text \<open>
  The reservation of the sentinel is needed. With an 8-bit identifier type, a set for 255
  identifiers is filled, an insertion of the sentinel 255 throws and leaves a 256th dense
  element behind, and the identifier 254 is erased. Then 254 does not exist, its sparse
  entry is the sentinel, and \<open>Get\<close> returns the element that the failed insertion left at
  dense position 255.
\<close>

lemma sentinel_insert_defeats_Get:
  "(let s = run_hpp 0 (SparseSet 255 :: (8, nat) sset)
              (map (\<lambda>j. Op_Insert (of_nat j) j) [0..<255] @ [Op_Insert 255 999, Op_Erase 254])
    in NumSupportedElements s = 255 \<and> m_CurrentLast s = 254 \<and>
       length (m_Elements s) = 256 \<and>
       Exists s 254 = Inr False \<and> GetIfExists s 254 = Inr None \<and>
       Get s 254 = Inr 999 \<and> Get_h s 254 = Inr 999)"
proof -
  let ?fill = "map (\<lambda>j. Op_Insert (of_nat j :: 8 word) j) [0..<255]"
  let ?full = "\<lparr>m_ID_To_Element = map of_nat [0..<255] :: 8 word list,
      m_Element_To_ID = map of_nat [0..<255], m_Elements = [0..<255],
      m_CurrentLast = 255\<rparr>"
  let ?over = "\<lparr>m_ID_To_Element = map of_nat [0..<255] :: 8 word list,
      m_Element_To_ID = map of_nat [0..<255] @ [255], m_Elements = [0..<255] @ [999 :: nat],
      m_CurrentLast = 255\<rparr>"
  let ?s = "\<lparr>m_ID_To_Element = (map of_nat [0..<255])[254 := InvalidIndex :: 8 word],
      m_Element_To_ID = map of_nat [0..<255] @ [255], m_Elements = [0..<255] @ [999 :: nat],
      m_CurrentLast = 254\<rparr>"
  have "run_hpp 0 (SparseSet 255 :: (8, nat) sset) ?fill =
      \<lparr>m_ID_To_Element = map of_nat [0..<255] @ replicate (unat (255 :: 8 word) - 255) InvalidIndex,
        m_Element_To_ID = map of_nat [0..<255], m_Elements = map (\<lambda>j. j) [0..<255],
        m_CurrentLast = of_nat 255\<rparr>"
    by (rule fill_in_order) simp
  then have full: "run_hpp 0 (SparseSet 255 :: (8, nat) sset) ?fill = ?full" by simp
  have over: "snd (Insert ?full 255 999) = ?over"
    by (simp add: Insert_eq_move Insert_move_out_of_range dense_store_def)
  have c: "consistent ?over"
    unfolding over [symmetric] full [symmetric]
    by (intro consistent_Insert consistent_run_hpp consistent_SparseSet)
  have e: "Exists ?over 254 = Inr True"
    by (simp add: Exists_eq Invalid8)
  have er: "snd (Erase ?over 254) = ?s"
    by (simp add: Erase_present [OF c e] spec_swap_remove_def)
  have "run_hpp 0 (SparseSet 255 :: (8, nat) sset) (?fill @ [Op_Insert 255 999, Op_Erase 254]) =
      snd (Erase (snd (Insert (run_hpp 0 (SparseSet 255 :: (8, nat) sset) ?fill) 255 999)) 254)"
    by (simp add: run_hpp_def)
  also have "\<dots> = snd (Erase (snd (Insert ?full 255 999)) 254)" by (simp only: full)
  also have "\<dots> = snd (Erase ?over 254)" by (simp only: over)
  also have "\<dots> = ?s" by (rule er)
  finally have run: "run_hpp 0 (SparseSet 255 :: (8, nat) sset)
      (?fill @ [Op_Insert 255 999, Op_Erase 254]) = ?s" .
  have a: "Exists ?s 254 = Inr False" by (simp add: Exists_eq)
  have g: "Get ?s 254 = Inr 999"
    by (simp add: Get_def vec_at_def Invalid8 nth_append)
  show ?thesis
    unfolding run Let_def using a g
    by (simp add: GetIfExists_absent Get_h_eq NumSupportedElements_def)
qed

section \<open>C6: growing the sparse table\<close>

text \<open>
  C6. \<open>Reserve\<close> (and \<open>ExtendTo\<close>) with argument \<open>n\<close> appends sentinel entries to the sparse
  table up to length \<open>n\<close>: afterwards the table supports the identifiers below \<open>n\<close>, every
  new slot is absent, every slot that was supported is unchanged, and nothing else
  changes. When \<open>n\<close> is not greater than the current support the call changes nothing, and
  the table never gets shorter. No call shortens the sparse table, so
  \<open>NumSupportedElements\<close> never decreases along any sequence of calls, from any object.
\<close>

theorem Reserve_grows_only:
  fixes s :: "('w::len, 'e) sset"
  shows
    "m_ID_To_Element (Reserve s n) =
       m_ID_To_Element s @ replicate (unat n - NumSupportedElements s) InvalidIndex \<and>
     NumSupportedElements (Reserve s n) = max (NumSupportedElements s) (unat n) \<and>
     (unat i < unat n \<longrightarrow> unat i < NumSupportedElements (Reserve s n)) \<and>
     (NumSupportedElements s \<le> unat i \<longrightarrow> Exists (Reserve s n) i = Inr False) \<and>
     (k < NumSupportedElements s \<longrightarrow> m_ID_To_Element (Reserve s n) ! k = m_ID_To_Element s ! k) \<and>
     Exists (Reserve s n) i = Exists s i \<and>
     m_Elements (Reserve s n) = m_Elements s \<and>
     m_Element_To_ID (Reserve s n) = m_Element_To_ID s \<and>
     m_CurrentLast (Reserve s n) = m_CurrentLast s \<and>
     (unat n \<le> NumSupportedElements s \<longrightarrow> Reserve s n = s) \<and>
     ExtendTo s n = Reserve s n \<and>
     NumSupportedElements s \<le> NumSupportedElements (run_hpp fresh s ops) \<and>
     NumSupportedElements s \<le> NumSupportedElements (run_h fresh s ops) \<and>
     (consistent s \<longrightarrow>
        unat (NumSupportedElements_h s) = NumSupportedElements s \<and>
        NumSupportedElements_h s \<le> NumSupportedElements_h (run_h fresh s ops))"
proof -
  have 1: "m_ID_To_Element (Reserve s n) =
       m_ID_To_Element s @ replicate (unat n - NumSupportedElements s) InvalidIndex"
    by (simp add: Reserve_def vec_resize_def NumSupportedElements_def)
  have 2: "NumSupportedElements (Reserve s n) = max (NumSupportedElements s) (unat n)"
    by (simp add: NumSupportedElements_def length_sparse_Reserve)
  then have 3: "unat i < unat n \<longrightarrow> unat i < NumSupportedElements (Reserve s n)" by auto
  have 6: "Exists (Reserve s n) i = Exists s i" by (rule Exists_Reserve)
  have 4: "NumSupportedElements s \<le> unat i \<longrightarrow> Exists (Reserve s n) i = Inr False"
    unfolding Exists_Reserve by (simp add: Exists_eq NumSupportedElements_def)
  have 5: "k < NumSupportedElements s \<longrightarrow> m_ID_To_Element (Reserve s n) ! k = m_ID_To_Element s ! k"
    by (simp add: 1 nth_append NumSupportedElements_def)
  have 7: "m_Elements (Reserve s n) = m_Elements s \<and>
     m_Element_To_ID (Reserve s n) = m_Element_To_ID s \<and>
     m_CurrentLast (Reserve s n) = m_CurrentLast s"
    by (simp add: Reserve_def)
  have 8: "unat n \<le> NumSupportedElements s \<longrightarrow> Reserve s n = s"
    by (simp add: Reserve_def NumSupportedElements_def)
  have 9: "ExtendTo s n = Reserve s n" by (rule ExtendTo_eq)
  have 10: "NumSupportedElements s \<le> NumSupportedElements (run_hpp fresh s ops)"
    by (simp add: NumSupportedElements_def length_sparse_run_hpp)
  then have 11: "NumSupportedElements s \<le> NumSupportedElements (run_h fresh s ops)"
    by (simp add: run_h_eq)
  have 12: "unat (NumSupportedElements_h s) = NumSupportedElements s \<and>
        NumSupportedElements_h s \<le> NumSupportedElements_h (run_h fresh s ops)" if c: "consistent s"
  proof -
    have u: "unat (NumSupportedElements_h t) = NumSupportedElements t"
      if "consistent t" for t :: "('w, 'e) sset"
    proof -
      have "length (m_ID_To_Element t) \<le> unat (InvalidIndex :: 'w word)"
        using that by (simp add: consistent_def sizes_ok_def)
      moreover have "unat (InvalidIndex :: 'w word) < 2 ^ LENGTH('w)" by (rule unsigned_less)
      ultimately have "length (m_ID_To_Element t) < 2 ^ LENGTH('w)" by (rule le_less_trans)
      then show ?thesis
        by (simp add: NumSupportedElements_h_def NumSupportedElements_def unat_of_nat)
    qed
    have "consistent (run_h fresh s ops)" using c by (simp add: run_h_eq consistent_run_hpp)
    then show ?thesis using u [OF c] u [of "run_h fresh s ops"] 11 by (simp add: word_le_nat_alt)
  qed
  from 1 2 3 4 5 6 7 8 9 10 11 12 show ?thesis by blast
qed

theorem Reserve_grows_only_witness:
  "m_ID_To_Element (Reserve (SparseSet 2 :: (32, nat) sset) 4) =
     [InvalidIndex, InvalidIndex, InvalidIndex, InvalidIndex] \<and>
   NumSupportedElements (Reserve (SparseSet 2 :: (32, nat) sset) 4) = 4 \<and>
   Reserve (SparseSet 4 :: (32, nat) sset) 2 = SparseSet 4 \<and>
   consistent (SparseSet 4 :: (32, nat) sset) \<and>
   NumSupportedElements_h (SparseSet 4 :: (32, nat) sset) \<le>
     NumSupportedElements_h (run_h 0 (SparseSet 4 :: (32, nat) sset) [Op_Insert 1 10, Op_Reserve 9, Op_Erase 1])"
proof -
  note t = Reserve_grows_only [where 'w = 32 and 'e = nat]
  have r2: "replicate 2 x = [x, x]" for x :: "32 word" by (simp add: eval_nat_numeral)
  have 1: "m_ID_To_Element (Reserve (SparseSet 2 :: (32, nat) sset) 4) =
     [InvalidIndex, InvalidIndex, InvalidIndex, InvalidIndex]"
    using t [of "SparseSet 2" 4] by (simp add: NumSupportedElements_def SparseSet_def r2)
  have 2: "NumSupportedElements (Reserve (SparseSet 2 :: (32, nat) sset) 4) = 4"
    using t [of "SparseSet 2" 4] by (simp add: NumSupportedElements_def SparseSet_def)
  have 3: "Reserve (SparseSet 4 :: (32, nat) sset) 2 = SparseSet 4"
    using t [of "SparseSet 4" 2] by (simp add: NumSupportedElements_def SparseSet_def)
  have c: "consistent (SparseSet 4 :: (32, nat) sset)" by (rule consistent_SparseSet)
  have 4: "NumSupportedElements_h (SparseSet 4 :: (32, nat) sset) \<le>
     NumSupportedElements_h (run_h 0 (SparseSet 4 :: (32, nat) sset) [Op_Insert 1 10, Op_Reserve 9, Op_Erase 1])"
    using t [of "SparseSet 4" _ _ _ 0] c by blast
  from 1 2 3 c 4 show ?thesis by blast
qed

section \<open>C7: ShrinkToFit\<close>

text \<open>
  C7. \<open>ShrinkToFit\<close> leaves the sparse table and the count as they are, so \<open>Exists\<close> answers
  the same for every identifier. On a consistent set it cuts the two dense vectors to
  their first \<open>count\<close> entries and changes nothing below the count: \<open>GetIfExists\<close> answers
  the same for every identifier, \<open>Get\<close> the same for every identifier that exists, and the
  set stays consistent. The same holds for the \<^verbatim>\<open>.h\<close> variant.
\<close>

theorem ShrinkToFit_neutral:
  fixes s :: "('w::len, 'e) sset"
  shows
    "m_ID_To_Element (ShrinkToFit fresh s) = m_ID_To_Element s \<and>
     m_CurrentLast (ShrinkToFit fresh s) = m_CurrentLast s \<and>
     NumSupportedElements (ShrinkToFit fresh s) = NumSupportedElements s \<and>
     Exists (ShrinkToFit fresh s) i = Exists s i \<and>
     ShrinkToFit_h fresh s = ShrinkToFit fresh s \<and>
     Exists_h (ShrinkToFit_h fresh s) i = Exists_h s i \<and>
     (consistent s \<longrightarrow>
        m_Elements (ShrinkToFit fresh s) = take (unat (m_CurrentLast s)) (m_Elements s) \<and>
        m_Element_To_ID (ShrinkToFit fresh s) = take (unat (m_CurrentLast s)) (m_Element_To_ID s) \<and>
        (p < unat (m_CurrentLast s) \<longrightarrow>
           m_Elements (ShrinkToFit fresh s) ! p = m_Elements s ! p \<and>
           m_Element_To_ID (ShrinkToFit fresh s) ! p = m_Element_To_ID s ! p) \<and>
        GetIfExists (ShrinkToFit fresh s) i = GetIfExists s i \<and>
        GetIfExists_h (ShrinkToFit_h fresh s) i = GetIfExists_h s i \<and>
        (Exists s i = Inr True \<longrightarrow>
           Get (ShrinkToFit fresh s) i = Get s i \<and> Get_h (ShrinkToFit_h fresh s) i = Get_h s i) \<and>
        consistent (ShrinkToFit fresh s))"
proof -
  have 1: "m_ID_To_Element (ShrinkToFit fresh s) = m_ID_To_Element s \<and>
     m_CurrentLast (ShrinkToFit fresh s) = m_CurrentLast s \<and>
     NumSupportedElements (ShrinkToFit fresh s) = NumSupportedElements s"
    by (simp add: ShrinkToFit_def NumSupportedElements_def)
  have 2: "Exists (ShrinkToFit fresh s) i = Exists s i \<and>
     ShrinkToFit_h fresh s = ShrinkToFit fresh s \<and>
     Exists_h (ShrinkToFit_h fresh s) i = Exists_h s i"
    by (simp add: Exists_ShrinkToFit ShrinkToFit_h_eq Exists_h_eq)
  have 3: "m_Elements (ShrinkToFit fresh s) = take (unat (m_CurrentLast s)) (m_Elements s) \<and>
        m_Element_To_ID (ShrinkToFit fresh s) = take (unat (m_CurrentLast s)) (m_Element_To_ID s) \<and>
        (p < unat (m_CurrentLast s) \<longrightarrow>
           m_Elements (ShrinkToFit fresh s) ! p = m_Elements s ! p \<and>
           m_Element_To_ID (ShrinkToFit fresh s) ! p = m_Element_To_ID s ! p) \<and>
        GetIfExists (ShrinkToFit fresh s) i = GetIfExists s i \<and>
        GetIfExists_h (ShrinkToFit_h fresh s) i = GetIfExists_h s i \<and>
        (Exists s i = Inr True \<longrightarrow>
           Get (ShrinkToFit fresh s) i = Get s i \<and> Get_h (ShrinkToFit_h fresh s) i = Get_h s i) \<and>
        consistent (ShrinkToFit fresh s)" if c: "consistent s"
    using GetIfExists_ShrinkToFit [OF c, of fresh i] Get_ShrinkToFit [OF c, of i fresh]
      consistent_ShrinkToFit [OF c, of fresh]
    by (simp add: ShrinkToFit_consistent_eq [OF c] ShrinkToFit_h_eq GetIfExists_h_eq Get_h_eq)
  from 1 2 3 show ?thesis by blast
qed

theorem ShrinkToFit_neutral_witness:
  "consistent (snd (Erase (snd (Insert (snd (Insert (SparseSet 4 :: (32, nat) sset) 1 10)) 2 20)) 2)) \<and>
   m_Elements (snd (Erase (snd (Insert (snd (Insert (SparseSet 4 :: (32, nat) sset) 1 10)) 2 20)) 2)) = [10, 20] \<and>
   m_Elements (ShrinkToFit 0
     (snd (Erase (snd (Insert (snd (Insert (SparseSet 4 :: (32, nat) sset) 1 10)) 2 20)) 2))) = [10] \<and>
   Get (ShrinkToFit 0
     (snd (Erase (snd (Insert (snd (Insert (SparseSet 4 :: (32, nat) sset) 1 10)) 2 20)) 2))) 1 = Inr 10"
proof -
  let ?s = "snd (Erase (snd (Insert (snd (Insert (SparseSet 4 :: (32, nat) sset) 1 10)) 2 20)) 2)"
  have c: "consistent ?s" by (intro consistent_Erase consistent_Insert consistent_SparseSet)
  have s2: "snd (Insert (snd (Insert (SparseSet 4 :: (32, nat) sset) 1 10)) 2 20) =
      \<lparr>m_ID_To_Element = [InvalidIndex, 0, 1, InvalidIndex], m_Element_To_ID = [1, 2],
       m_Elements = [10, 20], m_CurrentLast = 2\<rparr>"
    by (simp add: Insert_fresh SparseSet_def dense_store_def replicate4 Invalid32)
  have s: "?s = \<lparr>m_ID_To_Element = [InvalidIndex, 0, InvalidIndex, InvalidIndex],
       m_Element_To_ID = [1, 2], m_Elements = [10, 20], m_CurrentLast = 1\<rparr>"
    unfolding s2 by (simp add: Erase_def Exists_eq stmt_defs Let_def Invalid32)
  have e: "Exists ?s 1 = Inr True" unfolding s by (simp add: Exists_eq Invalid32)
  have g: "Get ?s 1 = Inr 10" unfolding s by (simp add: Get_def vec_at_def)
  have 1: "m_Elements ?s = [10, 20]" unfolding s by simp
  have 2: "m_Elements (ShrinkToFit 0 ?s) = take (unat (m_CurrentLast ?s)) (m_Elements ?s)"
    using ShrinkToFit_neutral [of 0 ?s] c by blast
  have 3: "Get (ShrinkToFit 0 ?s) 1 = Get ?s 1"
    using ShrinkToFit_neutral [of 0 ?s 1] c e by blast
  have "take (unat (m_CurrentLast ?s)) (m_Elements ?s) = [10]" unfolding s by simp
  with 1 2 3 g c show ?thesis by simp
qed

section \<open>C8: the two variants\<close>

text \<open>
  Without the copy operations the two variants agree: the constructors build the same
  object, every call leaves the same object and throws in the same cases, and every query
  answers the same (\<open>NumSupportedElements\<close> as a number, on a consistent set).
\<close>

lemma variants_agree_without_copy:
  fixes s :: "('w::len, 'e) sset"
  shows "SparseSet_h_default = (SparseSet_default :: ('w, 'e) sset)"
    and "SparseSet_h n = (SparseSet n :: ('w, 'e) sset)"
    and "apply_h fresh s op = apply_hpp fresh s op"
    and "throws_h s op = throws_hpp s op"
    and "run_h fresh s ops = run_hpp fresh s ops"
    and "Exists_h s i = Exists s i"
    and "Get_h s i = Get s i"
    and "GetIfExists_h s i = GetIfExists s i"
    and "GetData_h s = GetData s"
    and "consistent s \<Longrightarrow> unat (NumSupportedElements_h s) = NumSupportedElements s"
proof -
  show "consistent s \<Longrightarrow> unat (NumSupportedElements_h s) = NumSupportedElements s"
  proof -
    assume "consistent s"
    then have "length (m_ID_To_Element s) \<le> unat (InvalidIndex :: 'w word)"
      by (simp add: consistent_def sizes_ok_def)
    moreover have "unat (InvalidIndex :: 'w word) < 2 ^ LENGTH('w)" by (rule unsigned_less)
    ultimately have "length (m_ID_To_Element s) < 2 ^ LENGTH('w)" by (rule le_less_trans)
    then show ?thesis
      by (simp add: NumSupportedElements_h_def NumSupportedElements_def unat_of_nat)
  qed
qed (simp_all add: SparseSet_h_default_eq SparseSet_h_eq apply_h_eq throws_h_eq run_h_eq
    Exists_h_eq Get_h_eq GetIfExists_h_eq GetData_h_def GetData_def)

text \<open>
  C8. The variants differ on a copy. A set for four identifiers receives the identifier 1
  with the element 10, is copied, and the copy receives the identifier 2 with the element
  20. In the \<^verbatim>\<open>.hpp\<close> variant (implicit copy constructor) the copy holds two entries and
  \<open>Get\<close> of 1 returns 10. In the \<^verbatim>\<open>.h\<close> variant the copy starts with the count 0, the
  second insertion overwrites dense position 0, the count is 1 and \<open>Get\<close> of 1 returns 20.
\<close>

theorem copies_diverge:
  "(let a = snd (Insert (SparseSet 4 :: (32, nat) sset) 1 10);
        b = snd (Insert (SparseSet_copy a) 2 20)
    in Get b 1 = Inr 10 \<and> Get b 2 = Inr 20 \<and> m_CurrentLast b = 2 \<and> GetData b = [10, 20]) \<and>
   (let a = snd (Add (SparseSet_h 4 :: (32, nat) sset) 1 10);
        b = snd (Add (SparseSet_h_copy a) 2 20)
    in Get_h b 1 = Inr 20 \<and> Get_h b 2 = Inr 20 \<and> m_CurrentLast b = 1 \<and> GetData_h b = [20])"
proof -
  have a: "snd (Insert (SparseSet 4 :: (32, nat) sset) 1 10) =
      \<lparr>m_ID_To_Element = [InvalidIndex, 0, InvalidIndex, InvalidIndex], m_Element_To_ID = [1],
        m_Elements = [10], m_CurrentLast = 1\<rparr>"
    by (simp add: Insert_fresh SparseSet_def dense_store_def replicate4 Invalid32)
  have b: "snd (Insert \<lparr>m_ID_To_Element = [InvalidIndex, 0, InvalidIndex, InvalidIndex :: 32 word],
        m_Element_To_ID = [1], m_Elements = [10 :: nat], m_CurrentLast = 1\<rparr> 2 20) =
      \<lparr>m_ID_To_Element = [InvalidIndex, 0, 1, InvalidIndex], m_Element_To_ID = [1, 2],
        m_Elements = [10, 20], m_CurrentLast = 2\<rparr>"
    by (simp add: Insert_fresh dense_store_def Invalid32)
  have b': "snd (Insert \<lparr>m_ID_To_Element = [InvalidIndex, 0, InvalidIndex, InvalidIndex :: 32 word],
        m_Element_To_ID = [1], m_Elements = [10 :: nat], m_CurrentLast = 0\<rparr> 2 20) =
      \<lparr>m_ID_To_Element = [InvalidIndex, 0, 0, InvalidIndex], m_Element_To_ID = [2],
        m_Elements = [20], m_CurrentLast = 1\<rparr>"
    by (simp add: Insert_fresh dense_store_def Invalid32)
  have hpp: "(let a = snd (Insert (SparseSet 4 :: (32, nat) sset) 1 10);
        b = snd (Insert (SparseSet_copy a) 2 20)
    in Get b 1 = Inr 10 \<and> Get b 2 = Inr 20 \<and> m_CurrentLast b = 2 \<and> GetData b = [10, 20])"
    unfolding Let_def SparseSet_copy_def a b by (simp add: Get_def vec_at_def GetData_def)
  have c: "SparseSet_h_copy \<lparr>m_ID_To_Element = [InvalidIndex, 0, InvalidIndex, InvalidIndex :: 32 word],
        m_Element_To_ID = [1], m_Elements = [10 :: nat], m_CurrentLast = 1\<rparr> =
      \<lparr>m_ID_To_Element = [InvalidIndex, 0, InvalidIndex, InvalidIndex], m_Element_To_ID = [1],
        m_Elements = [10], m_CurrentLast = 0\<rparr>"
    by (simp add: SparseSet_h_copy_def SparseSet_h_default_def)
  have h: "(let a = snd (Add (SparseSet_h 4 :: (32, nat) sset) 1 10);
        b = snd (Add (SparseSet_h_copy a) 2 20)
    in Get_h b 1 = Inr 20 \<and> Get_h b 2 = Inr 20 \<and> m_CurrentLast b = 1 \<and> GetData_h b = [20])"
    unfolding Let_def Add_eq SparseSet_h_eq a c b' by (simp add: Get_h_eq Get_def vec_at_def GetData_h_def)
  from hpp h show ?thesis by blast
qed

section \<open>C9: copying in the .h variant\<close>




section \<open>C10: inserting an identifier that is out of range\<close>

text \<open>
  C10. When the identifier is not below the length of the sparse table (and the two dense
  vectors have one length, as they always have), \<open>Exists\<close> answers false and each of the four
  insertions throws the out-of-range error of the sparse-table access, after the element
  and the identifier have been stored at dense position \<open>count\<close>: over the stale slot when
  the count is below the dense length, appended otherwise. The count and the sparse table
  are as before the call. When the slot is appended the object has changed, so the failed
  call is not atomic.
\<close>

theorem Insert_out_of_range_not_atomic:
  fixes s :: "('w::len, 'e) sset"
  assumes r: "NumSupportedElements s \<le> unat i"
    and len: "length (m_Element_To_ID s) = length (m_Elements s)"
  shows
    "Exists s i = Inr False \<and>
     Insert s i x = (Inl OutOfRange, dense_store s i x) \<and>
     Insert_move s i x = (Inl OutOfRange, dense_store s i x) \<and>
     Add s i x = (Inl OutOfRange, dense_store s i x) \<and>
     Add_move s i x = (Inl OutOfRange, dense_store s i x) \<and>
     m_CurrentLast (dense_store s i x) = m_CurrentLast s \<and>
     m_ID_To_Element (dense_store s i x) = m_ID_To_Element s \<and>
     (unat (m_CurrentLast s) < length (m_Elements s) \<longrightarrow>
        m_Elements (dense_store s i x) = (m_Elements s)[unat (m_CurrentLast s) := x] \<and>
        m_Element_To_ID (dense_store s i x) = (m_Element_To_ID s)[unat (m_CurrentLast s) := i]) \<and>
     (\<not> unat (m_CurrentLast s) < length (m_Elements s) \<longrightarrow>
        m_Elements (dense_store s i x) = m_Elements s @ [x] \<and>
        m_Element_To_ID (dense_store s i x) = m_Element_To_ID s @ [i] \<and>
        dense_store s i x \<noteq> s)"
proof -
  have r': "length (m_ID_To_Element s) \<le> unat i" using r by (simp add: NumSupportedElements_def)
  have 1: "Exists s i = Inr False" using r' by (simp add: Exists_eq)
  have 2: "Insert_move s i x = (Inl OutOfRange, dense_store s i x)"
    by (rule Insert_move_out_of_range [OF r' len])
  then have 3: "Insert s i x = (Inl OutOfRange, dense_store s i x) \<and>
     Add s i x = (Inl OutOfRange, dense_store s i x) \<and>
     Add_move s i x = (Inl OutOfRange, dense_store s i x)"
    by (simp add: Add_eq Add_move_eq Insert_eq_move)
  have 4: "m_CurrentLast (dense_store s i x) = m_CurrentLast s \<and>
     m_ID_To_Element (dense_store s i x) = m_ID_To_Element s \<and>
     (unat (m_CurrentLast s) < length (m_Elements s) \<longrightarrow>
        m_Elements (dense_store s i x) = (m_Elements s)[unat (m_CurrentLast s) := x] \<and>
        m_Element_To_ID (dense_store s i x) = (m_Element_To_ID s)[unat (m_CurrentLast s) := i])"
    by (simp add: dense_store_def)
  have 5: "m_Elements (dense_store s i x) = m_Elements s @ [x] \<and>
        m_Element_To_ID (dense_store s i x) = m_Element_To_ID s @ [i] \<and>
        dense_store s i x \<noteq> s" if n: "\<not> unat (m_CurrentLast s) < length (m_Elements s)"
  proof -
    have a: "m_Elements (dense_store s i x) = m_Elements s @ [x]"
      and b: "m_Element_To_ID (dense_store s i x) = m_Element_To_ID s @ [i]"
      using n by (simp_all add: dense_store_def)
    have "length (m_Elements (dense_store s i x)) \<noteq> length (m_Elements s)" using a by simp
    then have "dense_store s i x \<noteq> s" by auto
    with a b show ?thesis by simp
  qed
  from 1 2 3 4 5 show ?thesis by blast
qed

theorem Insert_out_of_range_not_atomic_witness:
  "NumSupportedElements (SparseSet 4 :: (32, nat) sset) \<le> unat (7 :: 32 word) \<and>
   length (m_Element_To_ID (SparseSet 4 :: (32, nat) sset)) = length (m_Elements (SparseSet 4 :: (32, nat) sset)) \<and>
   Insert (SparseSet 4 :: (32, nat) sset) 7 70 =
     (Inl OutOfRange,
      \<lparr>m_ID_To_Element = [InvalidIndex, InvalidIndex, InvalidIndex, InvalidIndex],
        m_Element_To_ID = [7], m_Elements = [70], m_CurrentLast = 0\<rparr>)"
proof -
  have r: "NumSupportedElements (SparseSet 4 :: (32, nat) sset) \<le> unat (7 :: 32 word)"
    by (simp add: NumSupportedElements_def SparseSet_def)
  have len: "length (m_Element_To_ID (SparseSet 4 :: (32, nat) sset)) =
      length (m_Elements (SparseSet 4 :: (32, nat) sset))"
    by (simp add: SparseSet_def)
  have d: "dense_store (SparseSet 4 :: (32, nat) sset) 7 70 =
      \<lparr>m_ID_To_Element = [InvalidIndex, InvalidIndex, InvalidIndex, InvalidIndex],
        m_Element_To_ID = [7], m_Elements = [70], m_CurrentLast = 0\<rparr>"
    by (simp add: dense_store_def SparseSet_def replicate4)
  from Insert_out_of_range_not_atomic [OF r len, of 70] r len show ?thesis
    unfolding d by blast
qed

end
